theory Spec2Isabelle
  imports Main "HOL-Library.AList"
begin

section \<open>The platform values the handlers work on\<close>

text \<open>
  The repository holds four variants of one Cloudflare Pages function \<open>onRequest\<close>:
  \<^item> \<open>functions/_middleware.js\<close> (retrying origin fetch), here suffixed \<open>_mw\<close>;
  \<^item> the file of unknown name \<open>part_000\<close> (v4, cache-key normalisation), suffixed \<open>_v4\<close>;
  \<^item> \<open>examples/performance-test.js\<close>, lines 289-447 (v2), suffixed \<open>_v2\<close>;
  \<^item> \<open>examples/performance-test.js\<close>, lines 449-689 (request coalescing), suffixed \<open>_co\<close>.

  Strings are byte lists. A \<open>Headers\<close> object is an association list from header
  names to values; the class compares names case-insensitively and stores them in lower
  case, so every header name is written in lower case here.
\<close>

type_synonym headers = "(string \<times> string) list"

definition Headers_get :: "headers \<Rightarrow> string \<Rightarrow> string option" where
  "Headers_get h n = map_of h n"

definition Headers_has :: "headers \<Rightarrow> string \<Rightarrow> bool" where
  "Headers_has h n = (map_of h n \<noteq> None)"

definition Headers_set :: "string \<Rightarrow> string \<Rightarrow> headers \<Rightarrow> headers" where
  "Headers_set n v h = AList.update n v h"

definition Headers_delete :: "string \<Rightarrow> headers \<Rightarrow> headers" where
  "Headers_delete n h = AList.delete n h"

text \<open>\<open>headers.get(n)\<close> used as a condition: \<open>null\<close> and the empty string are falsy.\<close>

definition truthy :: "string option \<Rightarrow> bool" where
  "truthy v = (case v of None \<Rightarrow> False | Some s \<Rightarrow> s \<noteq> [])"

text \<open>\<open>v || d\<close> on a header value.\<close>

definition or_else :: "string option \<Rightarrow> string \<Rightarrow> string" where
  "or_else v d = (case v of None \<Rightarrow> d | Some s \<Rightarrow> if s = [] then d else s)"

text \<open>\<open>const v = src.get(n); if (v) dst.set(n, v)\<close>: a header copied when it is present.\<close>

definition forward :: "headers \<Rightarrow> string \<Rightarrow> headers \<Rightarrow> headers" where
  "forward src n dst =
     (case Headers_get src n of
        None \<Rightarrow> dst
      | Some v \<Rightarrow> if v = [] then dst else Headers_set n v dst)"

text \<open>
  A parsed URL (the WHATWG \<open>URL\<close> class): \<open>origin\<close> is scheme and host, \<open>query\<close> is
  \<open>None\<close> when the URL has no \<open>?\<close> at all. \<open>search\<close> and \<open>href\<close> are the getters of the
  class; assigning \<open>''\<close> to \<open>search\<close> sets the query to null.
\<close>

record url =
  origin :: string
  pathname :: string
  query :: "string option"

definition search :: "url \<Rightarrow> string" where
  "search u = (case query u of None \<Rightarrow> [] | Some q \<Rightarrow> if q = [] then [] else CHR ''?'' # q)"

definition href :: "url \<Rightarrow> string" where
  "href u = origin u @ pathname u @ (case query u of None \<Rightarrow> [] | Some q \<Rightarrow> CHR ''?'' # q)"

definition clear_search :: "url \<Rightarrow> url" where
  "clear_search u = u\<lparr>query := None\<rparr>"

record request =
  method' :: string
  url :: url
  headers :: headers

text \<open>
  A response. The body is the byte content the stream carries, \<open>None\<close> for a null
  body. In the variants \<open>_mw\<close>, \<open>_v4\<close> and \<open>_v2\<close> every stream is read by one consumer
  (the origin body is split with \<open>tee()\<close> first), so the content stands for the stream;
  the coalescing variant shares one origin response between several waiters and tracks
  the lock of its stream explicitly (see below).
\<close>

record response =
  status :: nat
  statusText :: string
  rheaders :: headers
  body :: "string option"

definition ok :: "response \<Rightarrow> bool" where
  "ok r = (200 \<le> status r \<and> status r \<le> 299)"

text \<open>
  \<open>new Response(body, {status, statusText, headers})\<close> with a stream or \<open>null\<close> as body.
  The checks the constructor makes on its arguments (a status outside 200..599, a body
  given with a null-body status) are not modelled; the one failure of the constructor
  that depends on the state of the program, a body stream that is already locked, is
  modelled where it can occur, in the coalescing variant.
\<close>

definition Response_new :: "string option \<Rightarrow> nat \<Rightarrow> string \<Rightarrow> headers \<Rightarrow> response" where
  "Response_new b s t h = \<lparr>status = s, statusText = t, rheaders = h, body = b\<rparr>"

text \<open>
  \<open>new Response(text, {status, headers})\<close> with a string body: the constructor adds the
  content type of a string body unless the headers carry one.
\<close>

definition Response_text :: "string \<Rightarrow> nat \<Rightarrow> headers \<Rightarrow> response" where
  "Response_text t s h =
     \<lparr>status = s, statusText = [],
      rheaders = (if Headers_has h ''content-type'' then h
                  else h @ [(''content-type'', ''text/plain;charset=UTF-8'')]),
      body = Some t\<rparr>"

text \<open>Errors a promise of the platform can reject with; each carries its message.\<close>

datatype exn = Error string | TypeError string

fun message :: "exn \<Rightarrow> string" where
  "message (Error m) = m"
| "message (TypeError m) = m"

text \<open>One call of \<open>fetch\<close>: URL, method, headers and the \<open>cf.cacheTtl\<close> option.\<close>

record fetch_call =
  fc_url :: string
  fc_method :: string
  fc_headers :: headers
  fc_cacheTtl :: nat

text \<open>
  The origin collaborator: the outcome of the \<open>n\<close>-th call of \<open>fetch\<close> (counted from 0)
  made while one request is handled; \<open>Inl\<close> is a rejected promise (a network failure).
\<close>

type_synonym origin_stub = "nat \<Rightarrow> fetch_call \<Rightarrow> exn + response"

text \<open>A key of the Cache API is a \<open>Request\<close>: its URL, method and headers.\<close>

record cache_key =
  ck_url :: string
  ck_method :: string
  ck_headers :: headers

text \<open>
  The cache collaborator as the handler sees it: what \<open>cache.match\<close> answers for a key,
  which is a rejected promise, \<open>undefined\<close> (\<open>None\<close>) or a response. The response is the
  one the platform hands back for the entry it holds, with whatever headers the
  platform sets on it; the handlers are modelled for every such answer.
\<close>

type_synonym cache_stub = "cache_key \<Rightarrow> exn + response option"

text \<open>
  What handling one request leaves behind: the response the handler returns, the effects
  it performs before it returns, in the order of the source, and the cache writes it has
  started. The effects are a call of \<open>fetch\<close>, a delay slept (milliseconds), a call of
  \<open>cache.put\<close> (it starts the write and gives back a pending promise) and the handing of
  a promise to \<open>waitUntil\<close>. No handler awaits a write: \<open>puts\<close> lists the writes started,
  which the platform completes in the background.
\<close>

datatype io = Fetch fetch_call | Sleep nat | CachePut cache_key response | WaitUntil
  | Return response

record result =
  resp :: response
  trace :: "io list"
  puts :: "(cache_key \<times> response) list"

definition fetches :: "io list \<Rightarrow> fetch_call list" where
  "fetches tr = concat (map (\<lambda>e. case e of Fetch c \<Rightarrow> [c] | _ \<Rightarrow> []) tr)"

definition sleeps :: "io list \<Rightarrow> nat list" where
  "sleeps tr = concat (map (\<lambda>e. case e of Sleep d \<Rightarrow> [d] | _ \<Rightarrow> []) tr)"


text \<open>String helpers of JavaScript.\<close>

definition endsWith :: "string \<Rightarrow> string \<Rightarrow> bool" where
  "endsWith s suf = (length suf \<le> length s \<and> drop (length s - length suf) s = suf)"

definition toLowerCase_char :: "char \<Rightarrow> char" where
  "toLowerCase_char c =
     (case map_of (zip ''ABCDEFGHIJKLMNOPQRSTUVWXYZ'' ''abcdefghijklmnopqrstuvwxyz'') c of
        Some d \<Rightarrow> d
      | None \<Rightarrow> c)"

definition toLowerCase :: "string \<Rightarrow> string" where
  "toLowerCase s = map toLowerCase_char s"

text \<open>A number in a template literal: its decimal digits.\<close>

fun string_of_nat :: "nat \<Rightarrow> string" where
  "string_of_nat n =
     (if n < 10 then [''0123456789'' ! n]
      else string_of_nat (n div 10) @ [''0123456789'' ! (n mod 10)])"

declare string_of_nat.simps [simp del]

section \<open>\<open>functions/_middleware.js\<close>: \<open>fetchWithRetry\<close>\<close>

definition ORIGIN_URL :: string where
  "ORIGIN_URL = ''https://webr00t.global.ssl.fastly.net''"

definition MAX_RETRIES :: nat where
  "MAX_RETRIES = 3"

text \<open>
  The loop of lines 159-178. An attempt that returns a status of 500 or more throws
  \<open>Error('Origin status N')\<close> into its own \<open>catch\<close>, as a rejected \<open>fetch\<close> does; the
  \<open>catch\<close> stores the error and sleeps \<open>100 * 2^i\<close> ms. \<open>lastError\<close> is \<open>None\<close> while the
  variable is still \<open>undefined\<close>.
\<close>

function fetchWithRetry_loop ::
  "origin_stub \<Rightarrow> fetch_call \<Rightarrow> nat \<Rightarrow> exn option \<Rightarrow> io list \<Rightarrow> io list \<times> (exn option + response)"
where
  "fetchWithRetry_loop stub call i lastError tr =
     (if i < MAX_RETRIES then
        (case stub i call of
           Inr res \<Rightarrow>
             if 500 \<le> status res
             then fetchWithRetry_loop stub call (Suc i)
                    (Some (Error (''Origin status '' @ string_of_nat (status res))))
                    (tr @ [Fetch call, Sleep (100 * 2 ^ i)])
             else (tr @ [Fetch call], Inr res)
         | Inl err \<Rightarrow>
             fetchWithRetry_loop stub call (Suc i) (Some err)
               (tr @ [Fetch call, Sleep (100 * 2 ^ i)]))
      else (tr, Inl lastError))"
  by pat_completeness auto
termination
  by (relation "measure (\<lambda>(stub, call, i, lastError, tr). MAX_RETRIES - i)") auto

declare fetchWithRetry_loop.simps [simp del]

text \<open>Lines 140-157: the clean header set and the fixed \<open>cf\<close> options of the origin call.\<close>

definition fetchWithRetry_call :: "string \<Rightarrow> request \<Rightarrow> fetch_call" where
  "fetchWithRetry_call path originalRequest =
     \<lparr>fc_url = ORIGIN_URL @ path,
      fc_method = method' originalRequest,
      fc_headers =
        Headers_set ''user-agent'' ''Cloudflare-Pages-CDN''
          (case Headers_get (headers originalRequest) ''range'' of
             Some v \<Rightarrow> Headers_set ''range'' v []
           | None \<Rightarrow> []),
      fc_cacheTtl = 31536000\<rparr>"

definition fetchWithRetry ::
  "origin_stub \<Rightarrow> string \<Rightarrow> request \<Rightarrow> io list \<times> (exn option + response)" where
  "fetchWithRetry stub path originalRequest =
     fetchWithRetry_loop stub (fetchWithRetry_call path originalRequest) 0 None []"

section \<open>\<open>functions/_middleware.js\<close>: \<open>onRequest\<close>\<close>

text \<open>\<open>request.headers.get('referer') || request.headers.get('referrer')\<close> (line 30).\<close>

definition referer_of :: "request \<Rightarrow> string option" where
  "referer_of r =
     (if truthy (Headers_get (headers r) ''referer'') then Headers_get (headers r) ''referer''
      else Headers_get (headers r) ''referrer'')"

text \<open>The extension gate of lines 24-25 (and 491-492 of the coalescing variant).\<close>

definition jpeg_path :: "url \<Rightarrow> bool" where
  "jpeg_path u =
     (endsWith (toLowerCase (pathname u)) ''.jpg'' \<or> endsWith (toLowerCase (pathname u)) ''.jpeg'')"

text \<open>
  The \<open>catch\<close> of lines 131-133. The caught value is \<open>None\<close> when \<open>fetchWithRetry\<close> threw
  its never-assigned \<open>lastError\<close>; reading \<open>.message\<close> of \<open>undefined\<close> throws out of the
  handler.
\<close>

definition catch_mw :: "exn option \<Rightarrow> exn + response" where
  "catch_mw err =
     (case err of
        Some e \<Rightarrow> Inr (Response_text (''Proxy Error: '' @ message e) 502 [])
      | None \<Rightarrow> Inl (TypeError ''Cannot read properties of undefined''))"

text \<open>Lines 73-92: the headers of the response to a miss.\<close>

definition responseHeaders_mw :: "url \<Rightarrow> response \<Rightarrow> headers" where
  "responseHeaders_mw u originResponse =
     (let h = rheaders originResponse;
          h = Headers_delete ''set-cookie'' h;
          h = Headers_delete ''server'' h;
          h = Headers_delete ''via'' h;
          h = Headers_set ''cache-control'' ''public, max-age=300, s-maxage=31536000'' h;
          h = Headers_set ''access-control-allow-origin'' ''*'' h;
          h = Headers_set ''content-type'' ''image/jpeg'' h;
          contentLen = or_else (Headers_get h ''content-length'') ''0'';
          h = (if Headers_has h ''etag'' then h
               else Headers_set ''etag''
                      ([CHR 0x22] @ pathname u @ ''-'' @ contentLen @ [CHR 0x22]) h)
      in Headers_set ''cf-cache-status'' ''MISS'' h)"

text \<open>
  Lines 67-129: the response built from the origin's answer, and the cache write. Line
  126 calls \<open>cache.put\<close> and hands its promise to \<open>waitUntil\<close>; line 129 returns.
\<close>

definition respond_mw :: "url \<Rightarrow> cache_key \<Rightarrow> io list \<Rightarrow> response \<Rightarrow> result" where
  "respond_mw u cacheKey tr originResponse =
     (if \<not> ok originResponse then \<lparr>resp = originResponse, trace = tr, puts = []\<rparr>
      else
        let responseHeaders = responseHeaders_mw u originResponse
        in case body originResponse of
             None \<Rightarrow>
               \<lparr>resp = Response_new None (status originResponse) [] responseHeaders,
                trace = tr, puts = []\<rparr>
           | Some b \<Rightarrow>
               (let clientResponse = Response_new (Some b) (status originResponse)
                                       (statusText originResponse) responseHeaders;
                    cacheResponse = Response_new (Some b) (status originResponse)
                                      (statusText originResponse) responseHeaders
                in if status originResponse = 200
                   then \<lparr>resp = clientResponse,
                         trace = tr @ [CachePut cacheKey cacheResponse, WaitUntil],
                         puts = [(cacheKey, cacheResponse)]\<rparr>
                   else \<lparr>resp = clientResponse, trace = tr, puts = []\<rparr>))"

text \<open>
  Lines 9-134. On a cache hit line 61 returns \<open>response\<close>, the very object \<open>cache.match\<close>
  handed back (the comment of line 60: for simplicity, on a cache hit we return
  directly); the \<open>newHeaders\<close> of lines 56-57 go into no response.
\<close>

definition onRequest_mw :: "cache_stub \<Rightarrow> origin_stub \<Rightarrow> request \<Rightarrow> exn + result" where
  "onRequest_mw cache stub r =
     (let u = url r in
      if method' r \<noteq> ''GET'' \<and> method' r \<noteq> ''HEAD''
      then Inr \<lparr>resp = Response_text ''Method Not Allowed'' 405 [], trace = [], puts = []\<rparr>
      else if pathname u = ''/health'' \<or> pathname u = ''/''
      then Inr \<lparr>resp = Response_text ''OK'' 200 [], trace = [], puts = []\<rparr>
      else if \<not> jpeg_path u
      then Inr \<lparr>resp = Response_text ''Forbidden Extension'' 403 [], trace = [], puts = []\<rparr>
      else if \<not> truthy (referer_of r)
      then Inr \<lparr>resp = Response_text ''Referer Required'' 403 [], trace = [], puts = []\<rparr>
      else
        let cacheKey = \<lparr>ck_url = href u, ck_method = method' r, ck_headers = headers r\<rparr> in
        case cache cacheKey of
          Inl err \<Rightarrow>
            (case catch_mw (Some err) of
               Inl e \<Rightarrow> Inl e
             | Inr rsp \<Rightarrow> Inr \<lparr>resp = rsp, trace = [], puts = []\<rparr>)
        | Inr (Some response) \<Rightarrow> Inr \<lparr>resp = response, trace = [], puts = []\<rparr>
        | Inr None \<Rightarrow>
            (case fetchWithRetry stub (pathname u @ search u) r of
               (tr, Inl err) \<Rightarrow>
                 (case catch_mw err of
                    Inl e \<Rightarrow> Inl e
                  | Inr rsp \<Rightarrow> Inr \<lparr>resp = rsp, trace = tr, puts = []\<rparr>)
             | (tr, Inr originResponse) \<Rightarrow> Inr (respond_mw u cacheKey tr originResponse)))"

section \<open>\<open>part_000\<close> (v4): \<open>onRequest\<close> with cache-key normalisation\<close>

definition STABLE_USER_AGENT :: string where
  "STABLE_USER_AGENT = ''Mozilla/5.0 (Windows NT 10.0; Win64; x64) AppleWebKit/537.36 (KHTML, like Gecko) Chrome/124.0.0.0 Safari/537.36''"

definition corsHeaders_v4 :: headers where
  "corsHeaders_v4 =
     [(''access-control-allow-origin'', ''*''),
      (''access-control-allow-methods'', ''GET, HEAD, OPTIONS''),
      (''access-control-allow-headers'', ''*''),
      (''access-control-expose-headers'', ''*''),
      (''access-control-max-age'', ''86400'')]"

text \<open>\<open>Object.keys(cors).forEach(key => h.set(key, cors[key]))\<close>.\<close>

definition set_all :: "headers \<Rightarrow> headers \<Rightarrow> headers" where
  "set_all cors h = foldl (\<lambda>acc kv. Headers_set (fst kv) (snd kv) acc) h cors"

text \<open>\<open>names.forEach(n => h.delete(n))\<close>.\<close>

definition delete_all :: "string list \<Rightarrow> headers \<Rightarrow> headers" where
  "delete_all names h = foldl (\<lambda>acc n. Headers_delete n acc) h names"

text \<open>\<open>JSON.stringify\<close> of a string: quotes, with the escapes of ECMA-262 (QuoteJSONString).\<close>

definition JSON_quote_char :: "char \<Rightarrow> string" where
  "JSON_quote_char c =
     (if c = CHR 0x22 then [CHR 0x5C, CHR 0x22]
      else if c = CHR 0x5C then [CHR 0x5C, CHR 0x5C]
      else if c = CHR 0x08 then [CHR 0x5C, CHR ''b'']
      else if c = CHR 0x0C then [CHR 0x5C, CHR ''f'']
      else if c = CHR 0x0A then [CHR 0x5C, CHR ''n'']
      else if c = CHR 0x0D then [CHR 0x5C, CHR ''r'']
      else if c = CHR 0x09 then [CHR 0x5C, CHR ''t'']
      else if (of_char c :: nat) < 32
      then [CHR 0x5C, CHR ''u'', CHR ''0'', CHR ''0'',
            ''0123456789abcdef'' ! ((of_char c :: nat) div 16),
            ''0123456789abcdef'' ! ((of_char c :: nat) mod 16)]
      else [c])"

definition JSON_quote :: "string \<Rightarrow> string" where
  "JSON_quote s = [CHR 0x22] @ concat (map JSON_quote_char s) @ [CHR 0x22]"

text \<open>The \<open>catch\<close> of lines 127-129.\<close>

definition catch_v4 :: "exn \<Rightarrow> response" where
  \<open>catch_v4 err =
     Response_text (''{"error":"Proxy Error","detail":'' @ JSON_quote (message err) @ ''}'')
       500 corsHeaders_v4\<close>

definition isPlaylist :: "url \<Rightarrow> bool" where
  "isPlaylist u = endsWith (pathname u) ''.m3u8''"

definition cacheTtl :: "url \<Rightarrow> nat" where
  "cacheTtl u = (if isPlaylist u then 2 else 31536000)"

text \<open>
  Lines 36-48: the normalised key. For a segment the query is cleared on a copy of the
  URL; the key request always has method GET and no headers.
\<close>

definition cacheKey_v4 :: "request \<Rightarrow> cache_key" where
  "cacheKey_v4 r =
     (let cacheKeyUrl = (if \<not> isPlaylist (url r) then clear_search (url r) else url r)
      in \<lparr>ck_url = href cacheKeyUrl, ck_method = ''GET'', ck_headers = []\<rparr>)"

text \<open>Lines 53-64: the answer to a cache hit.\<close>

definition hit_v4 :: "response \<Rightarrow> response" where
  "hit_v4 response =
     (let newHeaders = rheaders response;
          newHeaders = Headers_set ''cf-cache-status'' ''HIT'' newHeaders;
          newHeaders = Headers_set ''x-simulated-users'' ''50k-Ready'' newHeaders;
          newHeaders = set_all corsHeaders_v4 newHeaders
      in Response_new (body response) (status response) (statusText response) newHeaders)"

text \<open>Lines 67-85: the origin call; the whole \<open>url.search\<close> goes to the origin.\<close>

definition origin_call_v4 :: "request \<Rightarrow> fetch_call" where
  "origin_call_v4 r =
     (let originHeaders = Headers_set ''user-agent'' STABLE_USER_AGENT [];
          originHeaders = Headers_set ''referer'' ORIGIN_URL originHeaders;
          originHeaders = Headers_set ''connection'' ''keep-alive'' originHeaders;
          originHeaders = forward (headers r) ''range'' originHeaders
      in \<lparr>fc_url = ORIGIN_URL @ pathname (url r) @ search (url r),
          fc_method = method' r,
          fc_headers = originHeaders,
          fc_cacheTtl = cacheTtl (url r)\<rparr>)"

text \<open>Lines 88-95: the headers of the response to a miss.\<close>

definition ttl_v4 :: "url \<Rightarrow> string" where
  "ttl_v4 u = (if isPlaylist u then ''2'' else ''31536000'')"

definition responseHeaders_v4 :: "url \<Rightarrow> response \<Rightarrow> headers" where
  "responseHeaders_v4 u originResponse =
     (let responseHeaders = rheaders originResponse;
          responseHeaders =
            delete_all [''set-cookie'', ''via'', ''server'', ''x-powered-by'',
                        ''cf-cache-status'', ''cf-ray'', ''age''] responseHeaders;
          responseHeaders = set_all corsHeaders_v4 responseHeaders
      in Headers_set ''cache-control''
           (''public, max-age='' @ ttl_v4 u
              @ (if isPlaylist u then '', must-revalidate'' else '', immutable''))
           responseHeaders)"

text \<open>
  Lines 97-125: the response to a miss and the background cache write. The argument of
  \<open>waitUntil\<close> (lines 108-120) is an \<open>async\<close> function called on the spot: it runs up to its
  first \<open>await\<close>, so for status 200 \<open>cache.put\<close> is called there, and the promise of the
  function is then handed to \<open>waitUntil\<close>. The client's \<open>Response\<close> is built and returned
  after that, at line 122.
\<close>

definition respond_v4 :: "request \<Rightarrow> response \<Rightarrow> result" where
  "respond_v4 r originResponse =
     (let responseHeaders = responseHeaders_v4 (url r) originResponse
      in if \<not> ok originResponse
         then \<lparr>resp = Response_new (body originResponse) (status originResponse) []
                        responseHeaders,
               trace = [Fetch (origin_call_v4 r)], puts = []\<rparr>
         else case body originResponse of
                None \<Rightarrow>
                  \<lparr>resp = Response_new None 200 [] responseHeaders,
                   trace = [Fetch (origin_call_v4 r)], puts = []\<rparr>
              | Some b \<Rightarrow>
                  (let clientResponse =
                         Response_new (Some b) (status originResponse) [] responseHeaders;
                       cacheHeaders =
                         Headers_set ''cache-control''
                           (''public, max-age='' @ ttl_v4 (url r)) responseHeaders;
                       cacheResponse =
                         Response_new (Some b) (status originResponse) [] cacheHeaders
                   in if status originResponse = 200
                      then \<lparr>resp = clientResponse,
                            trace = [Fetch (origin_call_v4 r),
                                     CachePut (cacheKey_v4 r) cacheResponse, WaitUntil],
                            puts = [(cacheKey_v4 r, cacheResponse)]\<rparr>
                      else \<lparr>resp = clientResponse,
                            trace = [Fetch (origin_call_v4 r), WaitUntil],
                            puts = []\<rparr>))"

text \<open>Lines 17-130.\<close>

definition onRequest_v4 :: "cache_stub \<Rightarrow> origin_stub \<Rightarrow> request \<Rightarrow> result" where
  "onRequest_v4 cache stub r =
     (if method' r = ''OPTIONS''
      then \<lparr>resp = Response_new None 204 [] corsHeaders_v4, trace = [], puts = []\<rparr>
      else if method' r \<noteq> ''GET'' \<and> method' r \<noteq> ''HEAD''
      then \<lparr>resp = Response_text ''Method Not Allowed'' 405 corsHeaders_v4,
            trace = [], puts = []\<rparr>
      else
        case cache (cacheKey_v4 r) of
          Inl err \<Rightarrow> \<lparr>resp = catch_v4 err, trace = [], puts = []\<rparr>
        | Inr (Some response) \<Rightarrow> \<lparr>resp = hit_v4 response, trace = [], puts = []\<rparr>
        | Inr None \<Rightarrow>
            (case stub 0 (origin_call_v4 r) of
               Inl err \<Rightarrow>
                 \<lparr>resp = catch_v4 err, trace = [Fetch (origin_call_v4 r)], puts = []\<rparr>
             | Inr originResponse \<Rightarrow> respond_v4 r originResponse))"

section \<open>\<open>examples/performance-test.js\<close>, lines 289-447 (v2)\<close>

definition corsHeaders_v2 :: headers where
  "corsHeaders_v2 =
     [(''access-control-allow-origin'', ''*''),
      (''access-control-allow-methods'', ''GET, HEAD, OPTIONS''),
      (''access-control-allow-headers'', ''Content-Type, Range, User-Agent, X-Requested-With''),
      (''access-control-expose-headers'', ''Content-Length, Content-Range, ETag, Last-Modified''),
      (''access-control-max-age'', ''86400'')]"

text \<open>Line 342: the key is the request under its own URL, headers included.\<close>

definition cacheKey_v2 :: "request \<Rightarrow> cache_key" where
  "cacheKey_v2 r = \<lparr>ck_url = href (url r), ck_method = method' r, ck_headers = headers r\<rparr>"

definition hit_v2 :: "response \<Rightarrow> response" where
  "hit_v2 response =
     (let newHeaders = Headers_set ''cf-cache-status'' ''HIT'' (rheaders response);
          newHeaders = set_all corsHeaders_v2 newHeaders
      in Response_new (body response) (status response) (statusText response) newHeaders)"

definition origin_call_v2 :: "request \<Rightarrow> fetch_call" where
  "origin_call_v2 r =
     \<lparr>fc_url = ORIGIN_URL @ pathname (url r) @ search (url r),
      fc_method = method' r,
      fc_headers =
        foldl (\<lambda>acc n. forward (headers r) n acc) []
          [''range'', ''user-agent'', ''accept'', ''accept-encoding''],
      fc_cacheTtl = 31536000\<rparr>"

definition catch_v2 :: "exn \<Rightarrow> response" where
  "catch_v2 err = Response_text (''CDN Proxy Error: '' @ message err) 500 corsHeaders_v2"

text \<open>Lines 382-391: the headers of the response to a miss.\<close>

definition responseHeaders_v2 :: "response \<Rightarrow> headers" where
  "responseHeaders_v2 originResponse =
     (let responseHeaders = rheaders originResponse;
          responseHeaders =
            delete_all [''set-cookie'', ''via'', ''server'', ''x-powered-by''] responseHeaders;
          responseHeaders = set_all corsHeaders_v2 responseHeaders
      in Headers_set ''cf-cache-status'' ''MISS'' responseHeaders)"

text \<open>
  Lines 394-438. The cache write sits in a \<open>try\<close> of its own inside the \<open>async\<close> function
  whose promise is given to \<open>waitUntil\<close> (lines 416-429), so its failure never reaches the
  response; as in \<open>part_000\<close> the function is called before the client's \<open>Response\<close> is
  built and returned (line 432).
\<close>

definition respond_v2 :: "request \<Rightarrow> response \<Rightarrow> result" where
  "respond_v2 r originResponse =
     (let responseHeaders = responseHeaders_v2 originResponse
      in if \<not> ok originResponse
         then \<lparr>resp = Response_new (body originResponse) (status originResponse)
                        (statusText originResponse) responseHeaders,
               trace = [Fetch (origin_call_v2 r)], puts = []\<rparr>
         else case body originResponse of
                None \<Rightarrow>
                  \<lparr>resp = Response_new None (status originResponse) [] responseHeaders,
                   trace = [Fetch (origin_call_v2 r)], puts = []\<rparr>
              | Some b \<Rightarrow>
                  (let clientResponse =
                         Response_new (Some b) (status originResponse)
                           (statusText originResponse) responseHeaders;
                       cacheResponse =
                         Response_new (Some b) (status originResponse) [] responseHeaders
                   in if status originResponse = 200
                      then \<lparr>resp = clientResponse,
                            trace = [Fetch (origin_call_v2 r),
                                     CachePut (cacheKey_v2 r) cacheResponse, WaitUntil],
                            puts = [(cacheKey_v2 r, cacheResponse)]\<rparr>
                      else \<lparr>resp = clientResponse,
                            trace = [Fetch (origin_call_v2 r), WaitUntil],
                            puts = []\<rparr>))"

text \<open>Lines 305-447.\<close>

definition onRequest_v2 :: "cache_stub \<Rightarrow> origin_stub \<Rightarrow> request \<Rightarrow> result" where
  "onRequest_v2 cache stub r =
     (if method' r = ''OPTIONS''
      then \<lparr>resp = Response_new None 204 [] corsHeaders_v2, trace = [], puts = []\<rparr>
      else if method' r \<noteq> ''GET'' \<and> method' r \<noteq> ''HEAD''
      then \<lparr>resp = Response_text ''Method Not Allowed'' 405 corsHeaders_v2,
            trace = [], puts = []\<rparr>
      else if pathname (url r) = ''/health'' \<or> pathname (url r) = ''/''
      then \<lparr>resp = Response_text ''OK'' 200 corsHeaders_v2, trace = [], puts = []\<rparr>
      else
        case cache (cacheKey_v2 r) of
          Inl err \<Rightarrow> \<lparr>resp = catch_v2 err, trace = [], puts = []\<rparr>
        | Inr (Some response) \<Rightarrow> \<lparr>resp = hit_v2 response, trace = [], puts = []\<rparr>
        | Inr None \<Rightarrow>
            (case stub 0 (origin_call_v2 r) of
               Inl err \<Rightarrow>
                 \<lparr>resp = catch_v2 err, trace = [Fetch (origin_call_v2 r)], puts = []\<rparr>
             | Inr originResponse \<Rightarrow> respond_v2 r originResponse))"

section \<open>\<open>examples/performance-test.js\<close>, lines 449-689: request coalescing\<close>

definition ORIGIN_URL_co :: string where
  "ORIGIN_URL_co = ''https://w0rk3rsb4ckd00r.global.ssl.fastly.net''"

text \<open>
  What the platform answers when the handler asks: the values of \<open>Date.now()\<close> and
  \<open>new Date().toUTCString()\<close>, and the message of the \<open>TypeError\<close> it raises when a
  \<open>Response\<close> is built on a locked stream (every runtime words it in its own way).
\<close>

record clock =
  Date_now :: nat
  toUTCString :: string
  locked_message :: string

definition error_headers_co :: headers where
  "error_headers_co =
     [(''content-type'', ''text/plain''), (''x-cache'', ''ERROR''),
      (''cache-control'', ''no-store'')]"

definition forbidden_co :: response where
  "forbidden_co =
     Response_text ''Forbidden'' 403
       [(''content-type'', ''text/plain''), (''cache-control'', ''no-store'')]"

text \<open>The \<open>catch\<close> of lines 678-688.\<close>

definition catch_co :: "exn \<Rightarrow> response" where
  "catch_co err = Response_text (''CDN Error: '' @ message err) 500 error_headers_co"

text \<open>Lines 475-512: the answers given before the cache is looked at.\<close>

definition precheck_co :: "request \<Rightarrow> response option" where
  "precheck_co r =
     (if method' r \<noteq> ''GET'' \<and> method' r \<noteq> ''HEAD''
      then Some (Response_text ''Method not allowed'' 405 [])
      else if pathname (url r) = ''/health'' \<or> pathname (url r) = ''/''
      then Some (Response_text ''x'' 200
                   [(''content-type'', ''text/plain''),
                    (''x-powered-by'', ''Cloudflare-Pages-CDN'')])
      else if \<not> jpeg_path (url r) then Some forbidden_co
      else if \<not> truthy (referer_of r) then Some forbidden_co
      else None)"

text \<open>
  Lines 514-519: the cache key, \<open>URL + Range header\<close>: the key request carries the
  Range header of the request when there is one.
\<close>

definition cacheKey_co :: "request \<Rightarrow> cache_key" where
  "cacheKey_co r =
     \<lparr>ck_url = href (url r), ck_method = ''GET'',
      ck_headers =
        (case Headers_get (headers r) ''range'' of
           None \<Rightarrow> []
         | Some rangeHeader \<Rightarrow> if rangeHeader = [] then [] else [(''range'', rangeHeader)])\<rparr>"

text \<open>Line 543: the key of the in-flight map.\<close>

definition cacheKeyString_co :: "request \<Rightarrow> string" where
  "cacheKeyString_co r = ck_url (cacheKey_co r) @ or_else (Headers_get (headers r) ''range'') []"

text \<open>Lines 527-537.\<close>

definition hit_co :: "response \<Rightarrow> response" where
  "hit_co response =
     Response_new (body response) (status response) (statusText response)
       (Headers_set ''cf-cache-status'' ''HIT'' (rheaders response))"

text \<open>Lines 540-583: the origin call a new fetch makes.\<close>

definition origin_call_co :: "request \<Rightarrow> fetch_call" where
  "origin_call_co r =
     \<lparr>fc_url = ORIGIN_URL_co @ pathname (url r) @ search (url r),
      fc_method = method' r,
      fc_headers =
        foldl (\<lambda>acc n. forward (headers r) n acc) (forward (headers r) ''range'' [])
          [''accept'', ''accept-encoding'', ''user-agent'', ''if-none-match'',
           ''if-modified-since''],
      fc_cacheTtl = 86400 * 365\<rparr>"

text \<open>
  The origin response is one object shared by every handler that awaits the same
  promise, and its body is one stream. \<open>new Response(stream, ...)\<close> throws a \<open>TypeError\<close>
  on a locked stream and otherwise wraps that very stream, which stays unlocked;
  \<open>newResponse.clone()\<close> (line 673) tees the stream the response wraps, which locks it.
  The state of the stream is \<open>Locked\<close>, or \<open>Unlocked n\<close> when \<open>n\<close> of the responses built so
  far wrap it.
\<close>

datatype stream_state = Unlocked nat | Locked

fun wrap :: "stream_state \<Rightarrow> stream_state" where
  "wrap (Unlocked n) = Unlocked (Suc n)"
| "wrap Locked = Locked"

definition locked_stream :: "clock \<Rightarrow> exn" where
  "locked_stream clk = TypeError (locked_message clk)"

text \<open>Lines 611-661: the headers of the response, built on an empty \<open>Headers\<close>.\<close>

definition responseHeaders_co :: "clock \<Rightarrow> response \<Rightarrow> headers" where
  "responseHeaders_co clk originResponse =
     (let h = forward (rheaders originResponse) ''content-length'' [];
          h = forward (rheaders originResponse) ''content-range'' h;
          h = (if status originResponse = 200 \<or> status originResponse = 206
               then
                 let h = Headers_set ''cache-control'' ''public, max-age=300, s-maxage=3600'' h;
                     h = (if truthy (Headers_get (rheaders originResponse) ''etag'')
                          then forward (rheaders originResponse) ''etag'' h
                          else Headers_set ''etag''
                                 ([CHR 0x22] @ string_of_nat (Date_now clk) @ [CHR 0x22]) h)
                 in if truthy (Headers_get (rheaders originResponse) ''last-modified'')
                    then forward (rheaders originResponse) ''last-modified'' h
                    else Headers_set ''last-modified'' (toUTCString clk) h
               else h);
          h = Headers_set ''access-control-allow-origin'' ''*'' h;
          h = Headers_set ''access-control-allow-methods'' ''GET, HEAD, OPTIONS'' h;
          h = Headers_set ''access-control-max-age'' ''86400'' h;
          h = Headers_set ''accept-ranges'' ''bytes'' h;
          h = Headers_set ''content-type'' ''image/jpeg'' h
      in Headers_set ''cf-cache-status'' ''MISS'' h)"

text \<open>
  Lines 599-676, run by one handler with the origin response in hand: the new state of
  the origin's stream, the response, and the cache write handed to \<open>waitUntil\<close>. With
  status 200 or 206 and a body the response is cloned, which locks the stream; with any
  other status that passes line 600 and a body, the response returned wraps the origin's
  stream itself.
\<close>

definition continue_co ::
  "clock \<Rightarrow> stream_state \<Rightarrow> response \<Rightarrow> request \<Rightarrow>
   stream_state \<times> response \<times> (cache_key \<times> response) list"
where
  "continue_co clk stream originResponse r =
     (if \<not> ok originResponse \<and> status originResponse \<noteq> 206 \<and> status originResponse \<noteq> 304
      then (stream,
            Response_text (''Origin Error: '' @ string_of_nat (status originResponse))
              (status originResponse) error_headers_co,
            [])
      else if body originResponse \<noteq> None \<and> stream = Locked
      then (stream, catch_co (locked_stream clk), [])
      else
        let newResponse =
              Response_new (body originResponse) (status originResponse)
                (statusText originResponse) (responseHeaders_co clk originResponse)
        in if status originResponse = 200 \<or> status originResponse = 206
           then ((if body originResponse \<noteq> None then Locked else stream), newResponse,
                 [(cacheKey_co r, newResponse)])
           else ((if body originResponse \<noteq> None then wrap stream else stream),
                 newResponse, []))"

text \<open>
  Line 597 onwards for one waiter: a rejected promise throws into the \<open>catch\<close>.
\<close>

definition await_co ::
  "clock \<Rightarrow> exn + response \<Rightarrow> stream_state \<Rightarrow> request \<Rightarrow>
   stream_state \<times> response \<times> (cache_key \<times> response) list"
where
  "await_co clk out stream r =
     (case out of
        Inl err \<Rightarrow> (stream, catch_co err, [])
      | Inr originResponse \<Rightarrow> continue_co clk stream originResponse r)"

text \<open>
  The waiters of one promise resume one after the other, in the order they awaited:
  the state the origin's stream is left in, the responses returned and the cache writes.
\<close>

fun resume_co ::
  "clock \<Rightarrow> exn + response \<Rightarrow> stream_state \<Rightarrow> request list \<Rightarrow>
   stream_state \<times> (request \<times> response) list \<times> (cache_key \<times> response) list"
where
  "resume_co clk out stream [] = (stream, [], [])"
| "resume_co clk out stream (r # rs) =
     (case await_co clk out stream r of
        (stream', rsp, ps) \<Rightarrow>
          (case resume_co clk out stream' rs of
             (stream'', ds, qs) \<Rightarrow> (stream'', (r, rsp) # ds, ps @ qs)))"

text \<open>
  The platform drains a stream once. When two or more of the responses returned wrap
  the origin's stream, the body that stream carries reaches one client at most, and
  which one is the platform's choice.
\<close>

fun contended_stream :: "stream_state \<Rightarrow> bool" where
  "contended_stream (Unlocked n) = (2 \<le> n)"
| "contended_stream Locked = False"

text \<open>
  The state the handlers of one process share. \<open>inflightRequests\<close> is the \<open>Map\<close> of
  line 466, from \<open>cacheKeyString\<close> to the promise stored under it (promises are numbered
  as they are created). \<open>pending\<close> holds the origin fetches not yet settled, each with
  the \<open>cacheKeyString\<close> its closure captured. \<open>waiters\<close> are the handlers suspended at
  line 597, \<open>origin_log\<close> the calls of \<open>fetch\<close> so far (with the key string of the request
  that made the call), \<open>delivered\<close> the responses returned, each with a body of its own,
  \<open>contended\<close> the responses returned that wrap one origin stream between them (their
  \<open>body\<close> is what that stream carries, not what each client receives) and \<open>background\<close>
  the cache writes handed to \<open>waitUntil\<close>.
\<close>

record co_state =
  inflightRequests :: "string \<rightharpoonup> nat"
  pending :: "nat \<rightharpoonup> string"
  next_promise :: nat
  waiters :: "(nat \<times> request) list"
  origin_log :: "(string \<times> fetch_call) list"
  delivered :: "(request \<times> response) list"
  contended :: "(request \<times> response) list"
  background :: "(cache_key \<times> response) list"

definition co_init :: co_state where
  "co_init =
     \<lparr>inflightRequests = Map.empty, pending = Map.empty, next_promise = 0, waiters = [],
      origin_log = [], delivered = [], contended = [], background = []\<rparr>"

text \<open>
  Lines 540-597, which run without suspension once \<open>cache.match\<close> has answered
  \<open>undefined\<close>: look the key string up; when nothing is stored, start the fetch (the
  async function runs up to its \<open>await fetch\<close>, so the origin is called here) and store
  the promise; then await the promise. An \<open>await\<close> always defers its continuation, so
  the \<open>finally\<close> of the async function runs in a later step, after line 593 has stored
  the promise.
\<close>

definition join_co :: "co_state \<Rightarrow> request \<Rightarrow> co_state" where
  "join_co st r =
     (let cacheKeyString = cacheKeyString_co r in
      case inflightRequests st cacheKeyString of
        Some inflightPromise \<Rightarrow> st\<lparr>waiters := waiters st @ [(inflightPromise, r)]\<rparr>
      | None \<Rightarrow>
          let inflightPromise = next_promise st in
          st\<lparr>origin_log := origin_log st @ [(cacheKeyString, origin_call_co r)],
             pending := (pending st)(inflightPromise \<mapsto> cacheKeyString),
             next_promise := Suc inflightPromise,
             inflightRequests := (inflightRequests st)(cacheKeyString \<mapsto> inflightPromise),
             waiters := waiters st @ [(inflightPromise, r)]\<rparr>)"

text \<open>
  The fetch behind promise \<open>p\<close> settles with \<open>out\<close>: the \<open>finally\<close> of lines 586-589
  deletes the key string from the map, the promise settles, and its waiters resume. All
  of them hold the same origin response, so they all take the same branch of lines
  599-676: when the stream ends up wrapped by two or more responses, these are the
  responses of all the waiters.
\<close>

definition settle_co :: "clock \<Rightarrow> co_state \<Rightarrow> nat \<Rightarrow> exn + response \<Rightarrow> co_state" where
  "settle_co clk st p out =
     (case pending st p of
        None \<Rightarrow> st
      | Some cacheKeyString \<Rightarrow>
          (case resume_co clk out (Unlocked 0)
                  (map snd (filter (\<lambda>w. fst w = p) (waiters st))) of
             (stream, ds, ps) \<Rightarrow>
               st\<lparr>inflightRequests := (inflightRequests st)(cacheKeyString := None),
                  pending := (pending st)(p := None),
                  waiters := filter (\<lambda>w. fst w \<noteq> p) (waiters st),
                  delivered := delivered st @ (if contended_stream stream then [] else ds),
                  contended := contended st @ (if contended_stream stream then ds else []),
                  background := background st @ ps\<rparr>))"

text \<open>
  The event loop: handlers run to their next \<open>await\<close> without interleaving, so a run
  of the process is a sequence of events. \<open>Miss r\<close>: the handler of \<open>r\<close>, past the
  checks of lines 475-512, resumes from a \<open>cache.match\<close> that found nothing.
  \<open>Settle p out\<close>: the origin fetch of promise \<open>p\<close> settles with \<open>out\<close>.
\<close>

datatype co_event = Miss request | Settle nat "exn + response"

fun step_co :: "clock \<Rightarrow> co_state \<Rightarrow> co_event \<Rightarrow> co_state" where
  "step_co clk st (Miss r) = join_co st r"
| "step_co clk st (Settle p out) = settle_co clk st p out"

definition run_co :: "clock \<Rightarrow> co_state \<Rightarrow> co_event list \<Rightarrow> co_state" where
  "run_co clk st evs = foldl (step_co clk) st evs"

text \<open>
  Lines 468-689 for a request handled while no other request is in flight. Line 673
  calls \<open>cache.put\<close> on the clone and hands its promise to \<open>waitUntil\<close>; line 676 returns.
\<close>

definition onRequest_co :: "cache_stub \<Rightarrow> origin_stub \<Rightarrow> clock \<Rightarrow> request \<Rightarrow> result" where
  "onRequest_co cache stub clk r =
     (case precheck_co r of
        Some rsp \<Rightarrow> \<lparr>resp = rsp, trace = [], puts = []\<rparr>
      | None \<Rightarrow>
          (case cache (cacheKey_co r) of
             Inl err \<Rightarrow> \<lparr>resp = catch_co err, trace = [], puts = []\<rparr>
           | Inr (Some response) \<Rightarrow> \<lparr>resp = hit_co response, trace = [], puts = []\<rparr>
           | Inr None \<Rightarrow>
               (case await_co clk (stub 0 (origin_call_co r)) (Unlocked 0) r of
                  (stream, rsp, ps) \<Rightarrow>
                    \<lparr>resp = rsp,
                     trace = Fetch (origin_call_co r)
                               # concat (map (\<lambda>(k, e). [CachePut k e, WaitUntil]) ps),
                     puts = ps\<rparr>)))"

section \<open>Vocabulary of the claims\<close>

text \<open>
  An attempt of \<open>fetchWithRetry\<close> fails, by the test the code makes (line 168 and the
  \<open>catch\<close>), when \<open>fetch\<close> rejects or the status is 500 or more; \<open>attempt_error\<close> is the
  error the \<open>catch\<close> then stores in \<open>lastError\<close>.
\<close>

definition attempt_fails :: "exn + response \<Rightarrow> bool" where
  "attempt_fails out = (case out of Inl err \<Rightarrow> True | Inr res \<Rightarrow> 500 \<le> status res)"

definition attempt_error :: "exn + response \<Rightarrow> exn" where
  "attempt_error out =
     (case out of Inl err \<Rightarrow> err
      | Inr res \<Rightarrow> Error (''Origin status '' @ string_of_nat (status res)))"

text \<open>
  The status classes of HTTP, and the transient outcomes of the claim: a network-level
  failure or a 5xx status. Status codes are three digits up to 599; on those the test of
  the code and the 5xx class agree.
\<close>

definition is_4xx :: "nat \<Rightarrow> bool" where
  "is_4xx s = (400 \<le> s \<and> s \<le> 499)"

definition is_5xx :: "nat \<Rightarrow> bool" where
  "is_5xx s = (500 \<le> s \<and> s \<le> 599)"

definition transient :: "exn + response \<Rightarrow> bool" where
  "transient out = (case out of Inl err \<Rightarrow> True | Inr res \<Rightarrow> is_5xx (status res))"

definition valid_status_codes :: "origin_stub \<Rightarrow> bool" where
  "valid_status_codes stub = (\<forall>i c res. stub i c = Inr res \<longrightarrow> status res \<le> 599)"

text \<open>\<open>rangeHeader || ''\<close> (line 543): the Range value the coalescing variant keys on.\<close>

definition range_of :: "request \<Rightarrow> string" where
  "range_of r = or_else (Headers_get (headers r) ''range'') []"

text \<open>A response with no cache or origin work behind it.\<close>

definition immediate :: "response \<Rightarrow> result" where
  "immediate rsp = \<lparr>resp = rsp, trace = [], puts = []\<rparr>"







text \<open>
  The invariant of the in-flight map: every unsettled fetch is stored in the map under
  the key string it was started for, and every entry of the map is an unsettled fetch
  for that key string. Promises not yet created are not pending.
\<close>

definition co_inv :: "co_state \<Rightarrow> bool" where
  "co_inv st =
     ((\<forall>p k. pending st p = Some k \<longrightarrow> p < next_promise st \<and> inflightRequests st k = Some p)
      \<and> (\<forall>k p. inflightRequests st k = Some p \<longrightarrow> pending st p = Some k))"

text \<open>How often the origin has been called for key string \<open>k\<close>.\<close>

definition origin_calls_for :: "string \<Rightarrow> co_state \<Rightarrow> nat" where
  "origin_calls_for k st = length (filter (\<lambda>c. fst c = k) (origin_log st))"

text \<open>The requests with key string \<open>k\<close> that miss the cache during \<open>evs\<close>.\<close>

definition misses_for :: "string \<Rightarrow> co_event list \<Rightarrow> request list" where
  "misses_for k evs =
     concat (map (\<lambda>e. case e of
                          Miss r \<Rightarrow> if cacheKeyString_co r = k then [r] else []
                        | Settle p out \<Rightarrow> []) evs)"

text \<open>No origin fetch for key string \<open>k\<close> settles during \<open>evs\<close>, run from \<open>st\<close>.\<close>

fun unsettled :: "clock \<Rightarrow> string \<Rightarrow> co_state \<Rightarrow> co_event list \<Rightarrow> bool" where
  "unsettled clk k st [] = True"
| "unsettled clk k st (e # evs) =
     ((case e of Miss r \<Rightarrow> True | Settle p out \<Rightarrow> pending st p \<noteq> Some k)
      \<and> unsettled clk k (step_co clk st e) evs)"

section \<open>Sample inputs\<close>

text \<open>Requests: a JPEG segment with a token, with and without a Range header.\<close>

definition demo_url :: url where
  "demo_url = \<lparr>origin = ''https://cdn.example'', pathname = ''/video/seg-0001.jpg'',
               query = Some ''token=A''\<rparr>"

definition demo_req :: request where
  "demo_req = \<lparr>method' = ''GET'', url = demo_url,
               headers = [(''referer'', ''https://player.example/'')]\<rparr>"

definition demo_req_b :: request where
  "demo_req_b = \<lparr>method' = ''GET'', url = demo_url,
                  headers = [(''referer'', ''https://other.example/'')]\<rparr>"

definition demo_key_string :: string where
  "demo_key_string = ''https://cdn.example/video/seg-0001.jpg?token=A''"

definition range_A :: request where
  "range_A = \<lparr>method' = ''GET'', url = demo_url,
               headers = [(''referer'', ''https://player.example/''),
                          (''range'', ''bytes=0-99'')]\<rparr>"

definition range_B :: request where
  "range_B = \<lparr>method' = ''GET'', url = demo_url,
               headers = [(''referer'', ''https://player.example/''),
                          (''range'', ''bytes=100-199'')]\<rparr>"

text \<open>Requests of the v4 variant: one segment and one manifest, each under two tokens.\<close>

definition seg_A :: request where
  "seg_A = \<lparr>method' = ''GET'',
             url = \<lparr>origin = ''https://cdn.example'', pathname = ''/segment001.ts'',
                    query = Some ''token=A''\<rparr>,
             headers = []\<rparr>"

definition seg_B :: request where
  "seg_B = \<lparr>method' = ''GET'',
             url = \<lparr>origin = ''https://cdn.example'', pathname = ''/segment001.ts'',
                    query = Some ''token=B''\<rparr>,
             headers = []\<rparr>"

definition live_A :: request where
  "live_A = \<lparr>method' = ''GET'',
              url = \<lparr>origin = ''https://cdn.example'', pathname = ''/live.m3u8'',
                     query = Some ''token=A''\<rparr>,
              headers = []\<rparr>"

definition live_B :: request where
  "live_B = \<lparr>method' = ''GET'',
              url = \<lparr>origin = ''https://cdn.example'', pathname = ''/live.m3u8'',
                     query = Some ''token=B''\<rparr>,
              headers = []\<rparr>"

text \<open>A preflight request, a POST and a health check.\<close>

definition options_req :: request where
  "options_req = \<lparr>method' = ''OPTIONS'', url = demo_url, headers = []\<rparr>"

definition post_req :: request where
  "post_req = \<lparr>method' = ''POST'', url = demo_url, headers = []\<rparr>"

definition health_req :: request where
  "health_req =
     \<lparr>method' = ''GET'',
      url = \<lparr>origin = ''https://cdn.example'', pathname = ''/health'', query = None\<rparr>,
      headers = []\<rparr>"

text \<open>
  Origins: one that answers with a given status and a four-byte body; one that always
  answers 200, one that always answers 404, one that answers 503 twice and then 200, and
  one that never succeeds (503, connection reset, 503).
\<close>

definition origin_reply :: "nat \<Rightarrow> response" where
  "origin_reply s = \<lparr>status = s, statusText = [], rheaders = [], body = Some ''data''\<rparr>"

definition ok_stub :: origin_stub where
  "ok_stub i c = Inr (origin_reply 200)"

definition not_found_stub :: origin_stub where
  "not_found_stub i c = Inr (origin_reply 404)"

definition flaky_stub :: origin_stub where
  "flaky_stub i c = (if i < 2 then Inr (origin_reply 503) else Inr (origin_reply 200))"

definition down_stub :: origin_stub where
  "down_stub i c = (if i = 1 then Inl (Error ''connection reset'') else Inr (origin_reply 503))"

text \<open>A platform (its clock and its message for a locked stream) and an empty cache.\<close>

definition demo_clock :: clock where
  "demo_clock = \<lparr>Date_now = 1700000000000, toUTCString = ''Tue, 14 Nov 2023 22:13:20 GMT'',
                 locked_message = ''ReadableStream is locked''\<rparr>"

definition empty_cache :: cache_stub where
  "empty_cache k = Inr None"



text \<open>The origin call \<open>fetchWithRetry\<close> makes for \<open>demo_req\<close>.\<close>

definition demo_call :: fetch_call where
  "demo_call = fetchWithRetry_call ''/video/seg-0001.jpg?token=A'' demo_req"



text \<open>The key and the entry \<open>_middleware.js\<close> writes for \<open>demo_req\<close> after a miss.\<close>

definition demo_key_mw :: cache_key where
  "demo_key_mw =
     \<lparr>ck_url = ''https://cdn.example/video/seg-0001.jpg?token=A'', ck_method = ''GET'',
      ck_headers = [(''referer'', ''https://player.example/'')]\<rparr>"

definition demo_entry_mw :: response where
  "demo_entry_mw =
     \<lparr>status = 200, statusText = [],
      rheaders =
        [(''cache-control'', ''public, max-age=300, s-maxage=31536000''),
         (''access-control-allow-origin'', ''*''),
         (''content-type'', ''image/jpeg''),
         (''etag'', [CHR 0x22] @ ''/video/seg-0001.jpg-0'' @ [CHR 0x22]),
         (''cf-cache-status'', ''MISS'')],
      body = Some ''data''\<rparr>"

section \<open>The retry loop\<close>

lemma loop_step_fail:
  "i < MAX_RETRIES \<Longrightarrow> attempt_fails (stub i call) \<Longrightarrow>
   fetchWithRetry_loop stub call i le tr =
   fetchWithRetry_loop stub call (Suc i) (Some (attempt_error (stub i call)))
     (tr @ [Fetch call, Sleep (100 * 2 ^ i)])"
  by (subst fetchWithRetry_loop.simps)
     (simp add: attempt_fails_def attempt_error_def split: sum.splits)

lemma loop_step_ok:
  "i < MAX_RETRIES \<Longrightarrow> stub i call = Inr res \<Longrightarrow> \<not> 500 \<le> status res \<Longrightarrow>
   fetchWithRetry_loop stub call i le tr = (tr @ [Fetch call], Inr res)"
  by (subst fetchWithRetry_loop.simps) simp

lemma loop_exhausted:
  "\<not> i < MAX_RETRIES \<Longrightarrow> fetchWithRetry_loop stub call i le tr = (tr, Inl le)"
  by (subst fetchWithRetry_loop.simps) simp

lemma loop_all_fail:
  "i \<le> MAX_RETRIES \<Longrightarrow> (\<forall>j. i \<le> j \<and> j < MAX_RETRIES \<longrightarrow> attempt_fails (stub j call)) \<Longrightarrow>
   fetchWithRetry_loop stub call i le tr =
     (tr @ concat (map (\<lambda>j. [Fetch call, Sleep (100 * 2 ^ j)]) [i..<MAX_RETRIES]),
      Inl (if i < MAX_RETRIES then Some (attempt_error (stub (MAX_RETRIES - 1) call)) else le))"
proof (induction "MAX_RETRIES - i" arbitrary: i le tr)
  case 0
  then show ?case by (simp add: loop_exhausted)
next
  case (Suc d)
  then have lt: "i < MAX_RETRIES" and f: "attempt_fails (stub i call)" by auto
  have d: "d = MAX_RETRIES - Suc i" using Suc.hyps(2) by simp
  have rest: "\<forall>j. Suc i \<le> j \<and> j < MAX_RETRIES \<longrightarrow> attempt_fails (stub j call)"
    using Suc.prems(2) by simp
  have "Suc i \<le> MAX_RETRIES" using lt by simp
  note IH = Suc.hyps(1)[OF d this rest]
  show ?case
  proof (cases "Suc i < MAX_RETRIES")
    case True
    then show ?thesis using lt by (simp add: loop_step_fail[of i stub call, OF lt f] IH upt_conv_Cons)
  next
    case False
    then have "MAX_RETRIES - 1 = i" using lt by simp
    then show ?thesis using lt False by (simp add: loop_step_fail[of i stub call, OF lt f] IH upt_conv_Cons)
  qed
qed

lemma loop_first_ok:
  "i \<le> k \<Longrightarrow> k < MAX_RETRIES \<Longrightarrow> (\<forall>j. i \<le> j \<and> j < k \<longrightarrow> attempt_fails (stub j call)) \<Longrightarrow>
   stub k call = Inr res \<Longrightarrow> \<not> 500 \<le> status res \<Longrightarrow>
   fetchWithRetry_loop stub call i le tr =
     (tr @ concat (map (\<lambda>j. [Fetch call, Sleep (100 * 2 ^ j)]) [i..<k]) @ [Fetch call], Inr res)"
proof (induction "k - i" arbitrary: i le tr)
  case 0
  then have "i = k" by simp
  with 0 show ?case by (simp add: loop_step_ok)
next
  case (Suc d)
  then have lt: "i < k" by simp
  then have lt': "i < MAX_RETRIES" using Suc.prems by simp
  have f: "attempt_fails (stub i call)" using Suc.prems lt by simp
  have d: "d = k - Suc i" using Suc.hyps(2) by simp
  have le': "Suc i \<le> k" using lt by simp
  have rest: "\<forall>j. Suc i \<le> j \<and> j < k \<longrightarrow> attempt_fails (stub j call)"
    using Suc.prems(3) by simp
  note IH = Suc.hyps(1)[OF d le' Suc.prems(2) rest Suc.prems(4) Suc.prems(5)]
  show ?case using lt by (simp add: loop_step_fail[of i stub call, OF lt' f] IH upt_conv_Cons)
qed

lemma transient_fails:
  "valid_status_codes stub \<Longrightarrow> transient (stub i c) = attempt_fails (stub i c)"
  by (auto simp: valid_status_codes_def transient_def attempt_fails_def is_5xx_def split: sum.splits)

lemma not_fails_Inr: "\<not> attempt_fails out \<Longrightarrow> \<exists>r. out = Inr r \<and> \<not> 500 \<le> status r"
  by (cases out) (auto simp: attempt_fails_def)

lemma run_cases:
  fixes stub path req
  defines "call \<equiv> fetchWithRetry_call path req"
  shows "(\<exists>r. stub 0 call = Inr r \<and> \<not> 500 \<le> status r \<and>
            fetchWithRetry stub path req = ([Fetch call], Inr r))
       \<or> (\<exists>r. attempt_fails (stub 0 call) \<and> stub 1 call = Inr r \<and> \<not> 500 \<le> status r \<and>
            fetchWithRetry stub path req = ([Fetch call, Sleep 100, Fetch call], Inr r))
       \<or> (\<exists>r. attempt_fails (stub 0 call) \<and> attempt_fails (stub 1 call) \<and>
            stub 2 call = Inr r \<and> \<not> 500 \<le> status r \<and>
            fetchWithRetry stub path req =
              ([Fetch call, Sleep 100, Fetch call, Sleep 200, Fetch call], Inr r))
       \<or> (attempt_fails (stub 0 call) \<and> attempt_fails (stub 1 call) \<and> attempt_fails (stub 2 call) \<and>
            fetchWithRetry stub path req =
              ([Fetch call, Sleep 100, Fetch call, Sleep 200, Fetch call, Sleep 400],
               Inl (Some (attempt_error (stub 2 call)))))"
proof -
  have M: "MAX_RETRIES = Suc (Suc (Suc 0))" by (simp add: MAX_RETRIES_def)
  have u1: "[0..<Suc 0] = [0]" and u2: "[0..<Suc (Suc 0)] = [0, Suc 0]"
    and u3: "[0..<Suc (Suc (Suc 0))] = [0, Suc 0, Suc (Suc 0)]" by (simp_all add: upt_conv_Cons)
  show ?thesis
  proof (cases "attempt_fails (stub 0 call)")
    case False
    then obtain r where r: "stub 0 call = Inr r" "\<not> 500 \<le> status r"
      using not_fails_Inr by blast
    have "fetchWithRetry stub path req = ([Fetch call], Inr r)"
      unfolding fetchWithRetry_def call_def[symmetric]
      using loop_first_ok[of 0 0 stub call r None "[]"] r by (simp add: M)
    with r show ?thesis by blast
  next
    case f0: True
    show ?thesis
    proof (cases "attempt_fails (stub 1 call)")
      case False
      then obtain r where r: "stub 1 call = Inr r" "\<not> 500 \<le> status r"
        using not_fails_Inr by blast
      have "fetchWithRetry stub path req = ([Fetch call, Sleep 100, Fetch call], Inr r)"
        unfolding fetchWithRetry_def call_def[symmetric]
        using loop_first_ok[of 0 "Suc 0" stub call r None "[]"] r f0 by (simp add: M u1)
      with r f0 show ?thesis by blast
    next
      case f1: True
      show ?thesis
      proof (cases "attempt_fails (stub 2 call)")
        case False
        then obtain r where r: "stub 2 call = Inr r" "\<not> 500 \<le> status r"
          using not_fails_Inr by blast
        have all: "\<forall>j. 0 \<le> j \<and> j < Suc (Suc 0) \<longrightarrow> attempt_fails (stub j call)"
          using f0 f1 by (auto simp: less_Suc_eq)
        have "fetchWithRetry stub path req =
                ([Fetch call, Sleep 100, Fetch call, Sleep 200, Fetch call], Inr r)"
          unfolding fetchWithRetry_def call_def[symmetric]
          using loop_first_ok[of 0 "Suc (Suc 0)" stub call r None "[]"] r all
          by (simp add: M u2 numeral_2_eq_2)
        with r f0 f1 show ?thesis by blast
      next
        case f2: True
        have all: "\<forall>j. 0 \<le> j \<and> j < MAX_RETRIES \<longrightarrow> attempt_fails (stub j call)"
          using f0 f1 f2 by (auto simp: M less_Suc_eq numeral_2_eq_2)
        have "fetchWithRetry stub path req =
              ([Fetch call, Sleep 100, Fetch call, Sleep 200, Fetch call, Sleep 400],
               Inl (Some (attempt_error (stub 2 call))))"
          unfolding fetchWithRetry_def call_def[symmetric]
          using loop_all_fail[of 0 stub call None "[]"] all
          by (simp add: M u3 numeral_2_eq_2)
        with f0 f1 f2 show ?thesis by blast
      qed
    qed
  qed
qed


lemma ok_not_fails: "out = Inr r \<Longrightarrow> \<not> 500 \<le> status r \<Longrightarrow> \<not> attempt_fails out"
  by (simp add: attempt_fails_def)

lemma fails_not_4xx: "attempt_fails out \<Longrightarrow> out = Inr r \<Longrightarrow> \<not> is_4xx (status r)"
  by (simp add: attempt_fails_def is_4xx_def)

lemma retry_cases: "P 0 \<Longrightarrow> P (Suc 0) \<Longrightarrow> \<forall>i. Suc i < MAX_RETRIES \<longrightarrow> P i"
  by (auto simp: MAX_RETRIES_def less_Suc_eq numeral_3_eq_3)

text \<open>
  Claim C3. \<open>fetchWithRetry\<close> calls the origin between one and \<open>MAX_RETRIES = 3\<close> times,
  always with the same call. Attempt \<open>i + 1\<close> is made if and only if attempt \<open>i\<close> was made
  and failed, that is, \<open>fetch\<close> rejected (a network-level failure) or the status was 500
  or more; for an origin that keeps to the status codes of HTTP (up to 599) these are
  exactly the network-level failures and the 5xx answers. A 4xx answer to the first
  attempt is returned after that one call. Up to the last attempt the trace alternates
  attempts and delays, the delay after attempt \<open>i\<close> (before retry \<open>i\<close>) being
  \<open>100 * 2^i\<close> ms, and every delay slept is \<open>100 * 2^i\<close> for its position \<open>i\<close>. When all
  attempts fail, the error of the last attempt is thrown to the caller.
\<close>

theorem C3_fetchWithRetry_policy:
  assumes run: "fetchWithRetry stub path req = (tr, res)"
    and call: "call = fetchWithRetry_call path req"
    and n: "n = length (fetches tr)"
  shows "fetches tr = replicate n call \<and> 1 \<le> n \<and> n \<le> MAX_RETRIES \<and> MAX_RETRIES = 3
       \<and> (\<forall>i. Suc i < MAX_RETRIES \<longrightarrow> (Suc i < n) = (i < n \<and> attempt_fails (stub i call)))
       \<and> (valid_status_codes stub \<longrightarrow> (\<forall>i. attempt_fails (stub i call) = transient (stub i call)))
       \<and> (\<forall>r. stub 0 call = Inr r \<and> is_4xx (status r) \<longrightarrow> tr = [Fetch call] \<and> res = Inr r)
       \<and> take (2 * n - 1) tr
           = concat (map (\<lambda>i. [Fetch call, Sleep (100 * 2 ^ i)]) [0..<n - 1]) @ [Fetch call]
       \<and> sleeps tr = map (\<lambda>i. 100 * 2 ^ i) [0..<length (sleeps tr)]
       \<and> ((\<forall>i<MAX_RETRIES. attempt_fails (stub i call))
            \<longrightarrow> res = Inl (Some (attempt_error (stub (MAX_RETRIES - 1) call))))"
proof -
  have u1: "[0..<Suc 0] = [0]" and u2: "[0..<2] = [0, 1]"
    and u3: "[0..<3] = [0, 1, 2]" by (simp_all add: upt_conv_Cons)
  have r2: "replicate 2 call = [call, call]" and r3: "replicate 3 call = [call, call, call]"
    by (simp_all add: numeral_2_eq_2 numeral_3_eq_3)
  have classes: "valid_status_codes stub
      \<longrightarrow> (\<forall>i. attempt_fails (stub i call) = transient (stub i call))"
    by (simp add: transient_fails)
  consider
    (ok0) r where "stub 0 call = Inr r" "\<not> 500 \<le> status r" "tr = [Fetch call]" "res = Inr r"
  | (ok1) r where "attempt_fails (stub 0 call)" "stub 1 call = Inr r" "\<not> 500 \<le> status r"
      "tr = [Fetch call, Sleep 100, Fetch call]" "res = Inr r"
  | (ok2) r where "attempt_fails (stub 0 call)" "attempt_fails (stub 1 call)"
      "stub 2 call = Inr r" "\<not> 500 \<le> status r"
      "tr = [Fetch call, Sleep 100, Fetch call, Sleep 200, Fetch call]" "res = Inr r"
  | (fail) "attempt_fails (stub 0 call)" "attempt_fails (stub 1 call)"
      "attempt_fails (stub 2 call)"
      "tr = [Fetch call, Sleep 100, Fetch call, Sleep 200, Fetch call, Sleep 400]"
      "res = Inl (Some (attempt_error (stub 2 call)))"
    using run_cases[of stub path req] run unfolding call by auto
  then show ?thesis
  proof cases
    case ok0
    have nt: "\<not> attempt_fails (stub 0 call)" by (rule ok_not_fails[OF ok0(1) ok0(2)])
    have shape: "n = 1" "tr = [Fetch call]" using n ok0(3) by (simp_all add: fetches_def)
    have retry: "\<forall>i. Suc i < MAX_RETRIES \<longrightarrow> (Suc i < n) = (i < n \<and> attempt_fails (stub i call))"
      by (rule retry_cases) (use nt shape(1) in simp_all)
    have first: "\<forall>r. stub 0 call = Inr r \<and> is_4xx (status r) \<longrightarrow> tr = [Fetch call] \<and> res = Inr r"
      using ok0 by simp
    have "\<not> (\<forall>i<MAX_RETRIES. attempt_fails (stub i call))"
      using nt by (auto simp: MAX_RETRIES_def intro!: exI[of _ 0])
    then have last: "(\<forall>i<MAX_RETRIES. attempt_fails (stub i call))
        \<longrightarrow> res = Inl (Some (attempt_error (stub (MAX_RETRIES - 1) call)))" by blast
    show ?thesis using retry first last classes unfolding shape
      by (simp add: fetches_def sleeps_def MAX_RETRIES_def)
  next
    case ok1
    have nt: "attempt_fails (stub 0 call)" "\<not> attempt_fails (stub 1 call)"
      using ok_not_fails[OF ok1(2) ok1(3)] ok1(1) by simp_all
    have shape: "n = 2" "tr = [Fetch call, Sleep 100, Fetch call]"
      using n ok1(4) by (simp_all add: fetches_def)
    have retry: "\<forall>i. Suc i < MAX_RETRIES \<longrightarrow> (Suc i < n) = (i < n \<and> attempt_fails (stub i call))"
      by (rule retry_cases) (use nt shape(1) in simp_all)
    have first: "\<forall>r. stub 0 call = Inr r \<and> is_4xx (status r) \<longrightarrow> tr = [Fetch call] \<and> res = Inr r"
      using fails_not_4xx[OF ok1(1)] by blast
    have "\<not> (\<forall>i<MAX_RETRIES. attempt_fails (stub i call))"
      using nt by (auto simp: MAX_RETRIES_def intro!: exI[of _ 1])
    then have last: "(\<forall>i<MAX_RETRIES. attempt_fails (stub i call))
        \<longrightarrow> res = Inl (Some (attempt_error (stub (MAX_RETRIES - 1) call)))" by blast
    show ?thesis using retry first last classes unfolding shape
      by (simp add: fetches_def sleeps_def MAX_RETRIES_def u1 u2 r2)
  next
    case ok2
    have nt: "attempt_fails (stub 0 call)" "attempt_fails (stub 1 call)"
      "\<not> attempt_fails (stub 2 call)"
      using ok_not_fails[OF ok2(3) ok2(4)] ok2(1) ok2(2) by simp_all
    have shape: "n = 3" "tr = [Fetch call, Sleep 100, Fetch call, Sleep 200, Fetch call]"
      using n ok2(5) by (simp_all add: fetches_def)
    have retry: "\<forall>i. Suc i < MAX_RETRIES \<longrightarrow> (Suc i < n) = (i < n \<and> attempt_fails (stub i call))"
      by (rule retry_cases) (use nt shape(1) in simp_all)
    have first: "\<forall>r. stub 0 call = Inr r \<and> is_4xx (status r) \<longrightarrow> tr = [Fetch call] \<and> res = Inr r"
      using fails_not_4xx[OF ok2(1)] by blast
    have "\<not> (\<forall>i<MAX_RETRIES. attempt_fails (stub i call))"
      using nt by (auto simp: MAX_RETRIES_def intro!: exI[of _ 2])
    then have last: "(\<forall>i<MAX_RETRIES. attempt_fails (stub i call))
        \<longrightarrow> res = Inl (Some (attempt_error (stub (MAX_RETRIES - 1) call)))" by blast
    show ?thesis using retry first last classes unfolding shape
      by (simp add: fetches_def sleeps_def MAX_RETRIES_def u1 u2 u3 r3)
  next
    case fail
    note nt = fail(1) fail(2) fail(3)
    have shape: "n = 3"
      "tr = [Fetch call, Sleep 100, Fetch call, Sleep 200, Fetch call, Sleep 400]"
      using n fail(4) by (simp_all add: fetches_def)
    have retry: "\<forall>i. Suc i < MAX_RETRIES \<longrightarrow> (Suc i < n) = (i < n \<and> attempt_fails (stub i call))"
      by (rule retry_cases) (use nt shape(1) in simp_all)
    have first: "\<forall>r. stub 0 call = Inr r \<and> is_4xx (status r) \<longrightarrow> tr = [Fetch call] \<and> res = Inr r"
      using fails_not_4xx[OF fail(1)] by blast
    have last: "(\<forall>i<MAX_RETRIES. attempt_fails (stub i call))
        \<longrightarrow> res = Inl (Some (attempt_error (stub (MAX_RETRIES - 1) call)))"
      using fail(5) by (simp add: MAX_RETRIES_def)
    show ?thesis using retry first last classes unfolding shape
      by (simp add: fetches_def sleeps_def MAX_RETRIES_def u1 u2 u3 r3)
  qed
qed

lemma flaky_run:
  "fetchWithRetry flaky_stub ''/video/seg-0001.jpg?token=A'' demo_req =
     ([Fetch demo_call, Sleep 100, Fetch demo_call, Sleep 200, Fetch demo_call],
      Inr (origin_reply 200))"
  by (simp add: fetchWithRetry_def fetchWithRetry_loop.simps flaky_stub_def MAX_RETRIES_def
      origin_reply_def demo_call_def)

lemma flaky_valid: "valid_status_codes flaky_stub"
  by (simp add: valid_status_codes_def flaky_stub_def origin_reply_def split: if_splits)

theorem C3_fetchWithRetry_policy_witness:
  "fetchWithRetry flaky_stub ''/video/seg-0001.jpg?token=A'' demo_req =
       ([Fetch demo_call, Sleep 100, Fetch demo_call, Sleep 200, Fetch demo_call],
        Inr (origin_reply 200))
   \<and> valid_status_codes flaky_stub
   \<and> fetches [Fetch demo_call, Sleep 100, Fetch demo_call, Sleep 200, Fetch demo_call]
       = replicate 3 demo_call
   \<and> (3::nat) \<le> MAX_RETRIES
   \<and> attempt_fails (flaky_stub 0 demo_call) \<and> attempt_fails (flaky_stub 1 demo_call)
   \<and> transient (flaky_stub 0 demo_call) \<and> transient (flaky_stub 1 demo_call)
   \<and> sleeps [Fetch demo_call, Sleep 100, Fetch demo_call, Sleep 200, Fetch demo_call]
       = [100, 200]"
proof -
  let ?tr = "[Fetch demo_call, Sleep 100, Fetch demo_call, Sleep 200, Fetch demo_call]"
  have n: "3 = length (fetches ?tr)" by (simp add: fetches_def)
  note policy = C3_fetchWithRetry_policy[OF flaky_run demo_call_def n]
  from policy have a: "fetches ?tr = replicate 3 demo_call" by (rule conjunct1)
  from policy have b: "(3::nat) \<le> MAX_RETRIES" by simp
  have f: "attempt_fails (flaky_stub 0 demo_call)" "attempt_fails (flaky_stub 1 demo_call)"
    by (simp_all add: attempt_fails_def flaky_stub_def origin_reply_def)
  from policy flaky_valid
  have "\<forall>i. attempt_fails (flaky_stub i demo_call) = transient (flaky_stub i demo_call)"
    by simp
  with f have t: "transient (flaky_stub 0 demo_call)" "transient (flaky_stub 1 demo_call)"
    by auto
  have s: "sleeps ?tr = [100, 200]" by (simp add: sleeps_def)
  show ?thesis by (intro conjI flaky_run flaky_valid a b f t s)
qed

text \<open>
  Claim C10. When every one of the \<open>MAX_RETRIES\<close> attempts fails, the loop has slept
  after each of them, the last one included: the delays are 100, 200 and 400 ms, as many
  as there were attempts, the last event before the error is thrown is the sleep of
  \<open>100 * 2^(MAX_RETRIES - 1) = 400\<close> ms, and the error thrown is that of the last attempt.
\<close>

theorem C10_sleep_after_final_attempt:
  assumes fail: "\<forall>i<MAX_RETRIES. attempt_fails (stub i (fetchWithRetry_call path req))"
    and run: "fetchWithRetry stub path req = (tr, res)"
  shows "length (fetches tr) = MAX_RETRIES
       \<and> sleeps tr = map (\<lambda>i. 100 * 2 ^ i) [0..<MAX_RETRIES]
       \<and> sleeps tr = [100, 200, 400]
       \<and> length (sleeps tr) = MAX_RETRIES
       \<and> last tr = Sleep (100 * 2 ^ (MAX_RETRIES - 1))
       \<and> res = Inl (Some (attempt_error
                 (stub (MAX_RETRIES - 1) (fetchWithRetry_call path req))))"
proof -
  define call where "call = fetchWithRetry_call path req"
  have all: "\<forall>j. 0 \<le> j \<and> j < MAX_RETRIES \<longrightarrow> attempt_fails (stub j call)"
    using fail by (simp add: call_def)
  have "fetchWithRetry stub path req =
          (concat (map (\<lambda>j. [Fetch call, Sleep (100 * 2 ^ j)]) [0..<MAX_RETRIES]),
           Inl (Some (attempt_error (stub (MAX_RETRIES - 1) call))))"
    unfolding fetchWithRetry_def call_def[symmetric]
    using loop_all_fail[of 0 stub call None "[]"] all by (simp add: MAX_RETRIES_def)
  with run have tr: "tr = concat (map (\<lambda>j. [Fetch call, Sleep (100 * 2 ^ j)]) [0..<MAX_RETRIES])"
    and res: "res = Inl (Some (attempt_error (stub (MAX_RETRIES - 1) call)))" by simp_all
  have u3: "[0..<3] = [0, 1, 2]" by (simp add: upt_conv_Cons)
  show ?thesis unfolding tr res call_def[symmetric]
    by (simp add: MAX_RETRIES_def u3 fetches_def sleeps_def)
qed

lemma down_run:
  "fetchWithRetry down_stub ''/video/seg-0001.jpg?token=A'' demo_req =
     ([Fetch demo_call, Sleep 100, Fetch demo_call, Sleep 200, Fetch demo_call, Sleep 400],
      Inl (Some (Error ''Origin status 503'')))"
  by (simp add: fetchWithRetry_def fetchWithRetry_loop.simps down_stub_def MAX_RETRIES_def
      origin_reply_def demo_call_def string_of_nat.simps)

lemma down_fails:
  "\<forall>i<MAX_RETRIES. attempt_fails (down_stub i (fetchWithRetry_call ''/video/seg-0001.jpg?token=A'' demo_req))"
  by (simp add: attempt_fails_def down_stub_def origin_reply_def)

theorem C10_sleep_after_final_attempt_witness:
  "fetchWithRetry down_stub ''/video/seg-0001.jpg?token=A'' demo_req =
     ([Fetch demo_call, Sleep 100, Fetch demo_call, Sleep 200, Fetch demo_call, Sleep 400],
      Inl (Some (Error ''Origin status 503'')))
   \<and> attempt_fails (down_stub 0 demo_call) \<and> attempt_fails (down_stub 1 demo_call)
   \<and> attempt_fails (down_stub 2 demo_call)
   \<and> sleeps [Fetch demo_call, Sleep 100, Fetch demo_call, Sleep 200, Fetch demo_call, Sleep 400]
       = [100, 200, 400]
   \<and> last [Fetch demo_call, Sleep 100, Fetch demo_call, Sleep 200, Fetch demo_call, Sleep 400]
       = Sleep 400"
proof -
  have f: "attempt_fails (down_stub 0 demo_call)" "attempt_fails (down_stub 1 demo_call)"
    "attempt_fails (down_stub 2 demo_call)"
    by (simp_all add: attempt_fails_def down_stub_def origin_reply_def)
  have u3: "[0..<3] = [0, 1, 2]" by (simp add: upt_conv_Cons)
  from C10_sleep_after_final_attempt[OF down_fails down_run]
  show ?thesis using down_run f by (simp add: demo_call_def MAX_RETRIES_def u3)
qed

section \<open>Cache keys of the v4 variant\<close>

lemma search_inj: "search u1 \<noteq> search u2 \<Longrightarrow> query u1 \<noteq> query u2"
  by (auto simp: search_def)

lemma href_inj:
  "origin u1 = origin u2 \<Longrightarrow> pathname u1 = pathname u2 \<Longrightarrow> href u1 = href u2 \<Longrightarrow>
   query u1 = query u2"
  by (cases "query u1"; cases "query u2") (auto simp: href_def)

lemma fetches_respond_v4: "fetches (trace (respond_v4 r originResponse)) = [origin_call_v4 r]"
  by (simp add: respond_v4_def fetches_def Let_def split: option.splits)

lemma fetches_miss_v4:
  "method' r = ''GET'' \<or> method' r = ''HEAD'' \<Longrightarrow> cache (cacheKey_v4 r) = Inr None \<Longrightarrow>
   fetches (trace (onRequest_v4 cache stub r)) = [origin_call_v4 r]"
  by (auto simp: onRequest_v4_def fetches_respond_v4 split: sum.splits)
     (simp_all add: fetches_def)

text \<open>
  Claim C4. In the v4 variant a segment request (a path that does not end in \<open>.m3u8\<close>)
  gets the key of its scheme, host and path alone, so two requests to the same segment
  path get the same key whatever their queries; on a miss the origin is called once, at
  the origin URL followed by the path and the whole \<open>url.search\<close>. A manifest request
  (path ending in \<open>.m3u8\<close>) keeps its query in the key, so two requests to the same
  manifest path with different \<open>search\<close> get different keys.
\<close>

theorem C4_cache_key_by_resource_class:
  "(\<not> isPlaylist (url r1) \<and> origin (url r1) = origin (url r2) \<and> pathname (url r1) = pathname (url r2)
      \<longrightarrow> cacheKey_v4 r1 = cacheKey_v4 r2
          \<and> ck_url (cacheKey_v4 r1) = origin (url r1) @ pathname (url r1))
 \<and> ((method' r1 = ''GET'' \<or> method' r1 = ''HEAD'') \<and> cache (cacheKey_v4 r1) = Inr None
      \<longrightarrow> fetches (trace (onRequest_v4 cache stub r1)) = [origin_call_v4 r1]
          \<and> fc_url (origin_call_v4 r1) = ORIGIN_URL @ pathname (url r1) @ search (url r1))
 \<and> (isPlaylist (url r1) \<and> origin (url r1) = origin (url r2) \<and> pathname (url r1) = pathname (url r2)
      \<and> search (url r1) \<noteq> search (url r2)
      \<longrightarrow> cacheKey_v4 r1 \<noteq> cacheKey_v4 r2 \<and> ck_url (cacheKey_v4 r1) = href (url r1))"
proof (intro conjI impI)
  assume a: "\<not> isPlaylist (url r1) \<and> origin (url r1) = origin (url r2) \<and> pathname (url r1) = pathname (url r2)"
  then have "isPlaylist (url r2) = isPlaylist (url r1)" by (simp add: isPlaylist_def)
  with a show "cacheKey_v4 r1 = cacheKey_v4 r2"
    by (simp add: cacheKey_v4_def clear_search_def href_def)
  from a show "ck_url (cacheKey_v4 r1) = origin (url r1) @ pathname (url r1)"
    by (simp add: cacheKey_v4_def clear_search_def href_def)
next
  assume a: "(method' r1 = ''GET'' \<or> method' r1 = ''HEAD'') \<and> cache (cacheKey_v4 r1) = Inr None"
  then show "fetches (trace (onRequest_v4 cache stub r1)) = [origin_call_v4 r1]"
    by (simp add: fetches_miss_v4)
  show "fc_url (origin_call_v4 r1) = ORIGIN_URL @ pathname (url r1) @ search (url r1)"
    by (simp add: origin_call_v4_def Let_def)
next
  assume a: "isPlaylist (url r1) \<and> origin (url r1) = origin (url r2) \<and> pathname (url r1) = pathname (url r2)
      \<and> search (url r1) \<noteq> search (url r2)"
  then have "isPlaylist (url r2) = isPlaylist (url r1)" by (simp add: isPlaylist_def)
  with a have p2: "isPlaylist (url r2)" by simp
  from a have "query (url r1) \<noteq> query (url r2)" by (simp add: search_inj)
  then have "href (url r1) \<noteq> href (url r2)"
    using a href_inj by blast
  with a p2 show "cacheKey_v4 r1 \<noteq> cacheKey_v4 r2" by (simp add: cacheKey_v4_def)
  from a show "ck_url (cacheKey_v4 r1) = href (url r1)" by (simp add: cacheKey_v4_def)
qed

theorem C4_cache_key_by_resource_class_witness:
  "\<not> isPlaylist (url seg_A) \<and> origin (url seg_A) = origin (url seg_B)
   \<and> pathname (url seg_A) = pathname (url seg_B)
   \<and> cacheKey_v4 seg_A = cacheKey_v4 seg_B
   \<and> ck_url (cacheKey_v4 seg_A) = ''https://cdn.example/segment001.ts''
   \<and> method' seg_A = ''GET'' \<and> empty_cache (cacheKey_v4 seg_A) = Inr None
   \<and> fetches (trace (onRequest_v4 empty_cache ok_stub seg_A)) = [origin_call_v4 seg_A]
   \<and> fc_url (origin_call_v4 seg_A)
       = ''https://webr00t.global.ssl.fastly.net/segment001.ts?token=A''
   \<and> isPlaylist (url live_A) \<and> search (url live_A) \<noteq> search (url live_B)
   \<and> cacheKey_v4 live_A \<noteq> cacheKey_v4 live_B
   \<and> ck_url (cacheKey_v4 live_A) = ''https://cdn.example/live.m3u8?token=A''"
proof -
  have s: "\<not> isPlaylist (url seg_A)" "origin (url seg_A) = origin (url seg_B)"
    "pathname (url seg_A) = pathname (url seg_B)" "method' seg_A = ''GET''"
    "empty_cache (cacheKey_v4 seg_A) = Inr None"
    by (simp_all add: seg_A_def seg_B_def isPlaylist_def endsWith_def empty_cache_def)
  have l: "isPlaylist (url live_A)" "origin (url live_A) = origin (url live_B)"
    "pathname (url live_A) = pathname (url live_B)" "search (url live_A) \<noteq> search (url live_B)"
    by (simp_all add: live_A_def live_B_def isPlaylist_def endsWith_def search_def)
  have e: "origin (url seg_A) @ pathname (url seg_A) = ''https://cdn.example/segment001.ts''"
    "ORIGIN_URL @ pathname (url seg_A) @ search (url seg_A)
       = ''https://webr00t.global.ssl.fastly.net/segment001.ts?token=A''"
    "href (url live_A) = ''https://cdn.example/live.m3u8?token=A''"
    by (simp_all add: seg_A_def live_A_def ORIGIN_URL_def search_def href_def)
  note seg = C4_cache_key_by_resource_class[of seg_A seg_B empty_cache ok_stub]
  note live = C4_cache_key_by_resource_class[of live_A live_B empty_cache ok_stub]
  have c1: "cacheKey_v4 seg_A = cacheKey_v4 seg_B"
    and c2: "ck_url (cacheKey_v4 seg_A) = origin (url seg_A) @ pathname (url seg_A)"
    using seg s(1-3) by blast+
  have c3: "fetches (trace (onRequest_v4 empty_cache ok_stub seg_A)) = [origin_call_v4 seg_A]"
    and c4: "fc_url (origin_call_v4 seg_A) = ORIGIN_URL @ pathname (url seg_A) @ search (url seg_A)"
    using seg s(4,5) by blast+
  have c5: "cacheKey_v4 live_A \<noteq> cacheKey_v4 live_B"
    and c6: "ck_url (cacheKey_v4 live_A) = href (url live_A)"
    using live l by blast+
  show ?thesis
    using s l c1 c3 c5 c2[unfolded e] c4[unfolded e] c6[unfolded e] by blast
qed

section \<open>The Range header and the cache key\<close>

lemma cacheKey_co_range:
  "ck_headers (cacheKey_co r) = (if range_of r = [] then [] else [(''range'', range_of r)])"
  by (simp add: cacheKey_co_def range_of_def or_else_def split: option.splits)

text \<open>
  Claim C5 as stated fails on the coalescing variant: two GET requests for the same URL
  that differ only in their Range header get different cache keys and different keys
  in the in-flight map.
\<close>

theorem C5_range_in_coalescing_key_counterexample:
  "method' range_A = method' range_B \<and> url range_A = url range_B
   \<and> Headers_delete ''range'' (headers range_A) = Headers_delete ''range'' (headers range_B)
   \<and> cacheKey_co range_A \<noteq> cacheKey_co range_B
   \<and> cacheKeyString_co range_A \<noteq> cacheKeyString_co range_B"
  by (simp add: range_A_def range_B_def Headers_delete_def cacheKey_co_def
      cacheKeyString_co_def Headers_get_def or_else_def)

text \<open>
  Claim C5, amended. The v4 variant builds its key from the URL alone, so requests that
  differ only in their headers (the Range header among them) or method get the same key.
  The coalescing variant keys on \<open>URL + Range header\<close> (line 514): two requests for the
  same URL get the same cache key, and the same key in the in-flight map, exactly when
  their Range values are equal (an absent header counting as the empty value).
\<close>

theorem C5_range_and_cache_keys:
  "(url r1 = url r2 \<longrightarrow> cacheKey_v4 r1 = cacheKey_v4 r2)
 \<and> (url r1 = url r2 \<longrightarrow>
      (cacheKey_co r1 = cacheKey_co r2) = (range_of r1 = range_of r2)
    \<and> (cacheKeyString_co r1 = cacheKeyString_co r2) = (range_of r1 = range_of r2))"
proof (intro conjI impI)
  assume "url r1 = url r2"
  then show "cacheKey_v4 r1 = cacheKey_v4 r2" by (simp add: cacheKey_v4_def)
next
  assume u: "url r1 = url r2"
  have "(cacheKey_co r1 = cacheKey_co r2) = (ck_headers (cacheKey_co r1) = ck_headers (cacheKey_co r2))"
    using u by (auto simp: cacheKey_co_def)
  also have "\<dots> = (range_of r1 = range_of r2)"
    by (auto simp: cacheKey_co_range)
  finally show "(cacheKey_co r1 = cacheKey_co r2) = (range_of r1 = range_of r2)" .
  show "(cacheKeyString_co r1 = cacheKeyString_co r2) = (range_of r1 = range_of r2)"
    using u by (simp add: cacheKeyString_co_def cacheKey_co_def range_of_def)
qed

theorem C5_range_and_cache_keys_witness:
  "url range_A = url range_B \<and> cacheKey_v4 range_A = cacheKey_v4 range_B
   \<and> range_of range_A = ''bytes=0-99'' \<and> range_of range_B = ''bytes=100-199''
   \<and> cacheKey_co range_A \<noteq> cacheKey_co range_B
   \<and> cacheKeyString_co range_A \<noteq> cacheKeyString_co range_B"
proof -
  have u: "url range_A = url range_B" by (simp add: range_A_def range_B_def)
  have r: "range_of range_A = ''bytes=0-99''" "range_of range_B = ''bytes=100-199''"
    by (simp_all add: range_of_def range_A_def range_B_def Headers_get_def or_else_def)
  have d: "range_of range_A \<noteq> range_of range_B" by (simp add: r)
  show ?thesis using C5_range_and_cache_keys[of range_A range_B] u r d by blast
qed

section \<open>Cache writes\<close>
















section \<open>Cache hits and caught errors\<close>

lemma demo_passes_gates:
  "jpeg_path (url demo_req)" "truthy (referer_of demo_req)"
  "pathname (url demo_req) \<noteq> ''/health''" "pathname (url demo_req) \<noteq> ''/''"
  "method' demo_req = ''GET''"
  by (simp_all add: demo_req_def demo_url_def jpeg_path_def toLowerCase_def
      toLowerCase_char_def endsWith_def referer_of_def truthy_def Headers_get_def)

lemma demo_key: "\<lparr>ck_url = href (url demo_req), ck_method = ''GET'',
    ck_headers = headers demo_req\<rparr> = demo_key_mw"
  by (simp add: demo_req_def demo_url_def href_def demo_key_mw_def)

lemma demo_path: "pathname (url demo_req) @ search (url demo_req) = ''/video/seg-0001.jpg?token=A''"
  by (simp add: demo_req_def demo_url_def search_def)

lemma ok_run:
  "fetchWithRetry ok_stub ''/video/seg-0001.jpg?token=A'' demo_req =
     ([Fetch demo_call], Inr (origin_reply 200))"
  by (simp add: fetchWithRetry_def fetchWithRetry_loop.simps ok_stub_def MAX_RETRIES_def
      origin_reply_def demo_call_def)

lemma demo_respond_mw:
  "respond_mw (url demo_req) demo_key_mw [Fetch demo_call] (origin_reply 200) =
     \<lparr>resp = demo_entry_mw,
      trace = [Fetch demo_call, CachePut demo_key_mw demo_entry_mw, WaitUntil],
      puts = [(demo_key_mw, demo_entry_mw)]\<rparr>"
  by (simp add: respond_mw_def responseHeaders_mw_def origin_reply_def ok_def Let_def
      Headers_delete_def Headers_set_def Headers_has_def Headers_get_def or_else_def
      Response_new_def demo_entry_mw_def demo_req_def demo_url_def)

text \<open>
  A miss of \<open>_middleware.js\<close> on \<open>demo_req\<close>: the client gets \<open>demo_entry_mw\<close>, and the
  same response is written to the cache.
\<close>

lemma demo_miss_mw:
  "onRequest_mw empty_cache ok_stub demo_req =
     Inr \<lparr>resp = demo_entry_mw,
          trace = [Fetch demo_call, CachePut demo_key_mw demo_entry_mw, WaitUntil],
          puts = [(demo_key_mw, demo_entry_mw)]\<rparr>"
  by (simp add: onRequest_mw_def demo_passes_gates demo_key demo_path ok_run demo_respond_mw
      empty_cache_def Let_def)











text \<open>
  Claim C8 on \<open>functions/_middleware.js\<close>. When the origin fails on all three attempts,
  the \<open>catch\<close> of line 131 turns the error into a 502 response with the text
  \<open>Proxy Error: \<close> and the message. That response has no CORS header, while the
  response of the same handler to a successful miss has \<open>Access-Control-Allow-Origin\<close>.
\<close>

theorem C8_mw_error_without_cors:
  "onRequest_mw empty_cache down_stub demo_req =
     Inr \<lparr>resp = \<lparr>status = 502, statusText = [],
                   rheaders = [(''content-type'', ''text/plain;charset=UTF-8'')],
                   body = Some ''Proxy Error: Origin status 503''\<rparr>,
          trace = [Fetch demo_call, Sleep 100, Fetch demo_call, Sleep 200, Fetch demo_call,
                   Sleep 400],
          puts = []\<rparr>
   \<and> Headers_get [(''content-type'', ''text/plain;charset=UTF-8'')]
        ''access-control-allow-origin'' = None
   \<and> Headers_get (rheaders demo_entry_mw) ''access-control-allow-origin'' = Some ''*''"
  by (simp add: onRequest_mw_def demo_passes_gates demo_key demo_path down_run
      empty_cache_def Let_def catch_mw_def Response_text_def Headers_has_def)
    (simp add: demo_entry_mw_def Headers_get_def)

text \<open>
  The v4 variant answers a caught error with status 500 and the CORS headers.
  \<open>_middleware.js\<close> itself always returns a response: its \<open>catch\<close> never meets an
  undefined error.
\<close>

lemma catch_v4_cors:
  "status (catch_v4 err) = 500
   \<and> Headers_get (rheaders (catch_v4 err)) ''access-control-allow-origin'' = Some ''*''"
  by (simp add: catch_v4_def Response_text_def Headers_has_def Headers_get_def corsHeaders_v4_def)

lemma fetchWithRetry_throws_error:
  "fetchWithRetry stub path req = (tr, Inl err) \<Longrightarrow> err \<noteq> None"
  using run_cases[of stub path req] by auto

lemma onRequest_mw_returns: "\<exists>res. onRequest_mw cache stub r = Inr res"
proof (cases "fetchWithRetry stub (pathname (url r) @ search (url r)) r")
  case (Pair tr out)
  then show ?thesis
    by (cases out)
       (auto simp: onRequest_mw_def Let_def catch_mw_def
             dest: fetchWithRetry_throws_error split: sum.splits option.splits)
qed

section \<open>Method dispatch\<close>

text \<open>
  Claim C9 as stated fails on both files it is drawn from: \<open>_middleware.js\<close> answers
  an OPTIONS request with 405, and the v4 variant has no health-check path, so a request
  for \<open>/health\<close> goes to the cache and the origin (here the origin answers 404).
\<close>

theorem C9_dispatch_differs_by_variant_counterexample:
  "onRequest_mw empty_cache ok_stub options_req
     = Inr (immediate (Response_text ''Method Not Allowed'' 405 []))
   \<and> status (resp (onRequest_v4 empty_cache not_found_stub health_req)) = 404
   \<and> trace (onRequest_v4 empty_cache not_found_stub health_req)
       = [Fetch (origin_call_v4 health_req)]"
  by (simp add: onRequest_mw_def options_req_def immediate_def onRequest_v4_def health_req_def
      empty_cache_def not_found_stub_def respond_v4_def origin_reply_def ok_def Let_def
      Response_new_def)

text \<open>
  Claim C9, amended. A request whose method is not GET, HEAD or OPTIONS is answered with
  405 by each of the four variants, with no cache or origin work. An OPTIONS request is
  answered by the v4 and v2 variants with 204, the CORS headers and no body, before any
  cache or origin logic runs, and by \<open>_middleware.js\<close> and the coalescing variant with
  405. A GET or HEAD request for \<open>/health\<close> or \<open>/\<close> is answered with 200 and the body
  \<open>OK\<close> by \<open>_middleware.js\<close> and by v2, and with 200 and the body \<open>x\<close> by the coalescing
  variant, in each case with no cache or origin work. The v4 variant has no health
  check: a GET or HEAD request for any path that misses the cache is fetched from the
  origin.
\<close>

theorem C9_method_dispatch:
  "(method' r \<noteq> ''GET'' \<and> method' r \<noteq> ''HEAD'' \<and> method' r \<noteq> ''OPTIONS'' \<longrightarrow>
      onRequest_mw cache stub r = Inr (immediate (Response_text ''Method Not Allowed'' 405 []))
    \<and> onRequest_v4 cache stub r
        = immediate (Response_text ''Method Not Allowed'' 405 corsHeaders_v4)
    \<and> onRequest_v2 cache stub r
        = immediate (Response_text ''Method Not Allowed'' 405 corsHeaders_v2)
    \<and> onRequest_co cache stub clk r = immediate (Response_text ''Method not allowed'' 405 []))
 \<and> (method' r = ''OPTIONS'' \<longrightarrow>
      onRequest_v4 cache stub r = immediate (Response_new None 204 [] corsHeaders_v4)
    \<and> onRequest_v2 cache stub r = immediate (Response_new None 204 [] corsHeaders_v2)
    \<and> onRequest_mw cache stub r = Inr (immediate (Response_text ''Method Not Allowed'' 405 []))
    \<and> onRequest_co cache stub clk r = immediate (Response_text ''Method not allowed'' 405 []))
 \<and> ((method' r = ''GET'' \<or> method' r = ''HEAD'')
      \<and> (pathname (url r) = ''/health'' \<or> pathname (url r) = ''/'') \<longrightarrow>
      onRequest_mw cache stub r = Inr (immediate (Response_text ''OK'' 200 []))
    \<and> onRequest_v2 cache stub r = immediate (Response_text ''OK'' 200 corsHeaders_v2)
    \<and> onRequest_co cache stub clk r
        = immediate (Response_text ''x'' 200
                       [(''content-type'', ''text/plain''),
                        (''x-powered-by'', ''Cloudflare-Pages-CDN'')]))
 \<and> ((method' r = ''GET'' \<or> method' r = ''HEAD'') \<and> cache (cacheKey_v4 r) = Inr None \<longrightarrow>
      fetches (trace (onRequest_v4 cache stub r)) = [origin_call_v4 r])
 \<and> status (Response_text t s h) = s \<and> body (Response_text t s h) = Some t
 \<and> status (Response_new None 204 [] h) = 204 \<and> rheaders (Response_new None 204 [] h) = h
 \<and> set corsHeaders_v2 \<subseteq> set (rheaders (Response_text t s corsHeaders_v2))
 \<and> set corsHeaders_v4 \<subseteq> set (rheaders (Response_text t s corsHeaders_v4))"
proof (intro conjI impI)
  assume m: "method' r \<noteq> ''GET'' \<and> method' r \<noteq> ''HEAD'' \<and> method' r \<noteq> ''OPTIONS''"
  then show "onRequest_mw cache stub r
      = Inr (immediate (Response_text ''Method Not Allowed'' 405 []))"
    by (simp add: onRequest_mw_def immediate_def)
  from m show "onRequest_v4 cache stub r
      = immediate (Response_text ''Method Not Allowed'' 405 corsHeaders_v4)"
    by (simp add: onRequest_v4_def immediate_def)
  from m show "onRequest_v2 cache stub r
      = immediate (Response_text ''Method Not Allowed'' 405 corsHeaders_v2)"
    by (simp add: onRequest_v2_def immediate_def)
  from m show "onRequest_co cache stub clk r
      = immediate (Response_text ''Method not allowed'' 405 [])"
    by (simp add: onRequest_co_def precheck_co_def immediate_def)
next
  assume m: "method' r = ''OPTIONS''"
  then show "onRequest_v4 cache stub r = immediate (Response_new None 204 [] corsHeaders_v4)"
    by (simp add: onRequest_v4_def immediate_def)
  from m show "onRequest_v2 cache stub r = immediate (Response_new None 204 [] corsHeaders_v2)"
    by (simp add: onRequest_v2_def immediate_def)
  from m show "onRequest_mw cache stub r
      = Inr (immediate (Response_text ''Method Not Allowed'' 405 []))"
    by (simp add: onRequest_mw_def immediate_def)
  from m show "onRequest_co cache stub clk r
      = immediate (Response_text ''Method not allowed'' 405 [])"
    by (simp add: onRequest_co_def precheck_co_def immediate_def)
next
  assume m: "(method' r = ''GET'' \<or> method' r = ''HEAD'')
      \<and> (pathname (url r) = ''/health'' \<or> pathname (url r) = ''/'')"
  then show "onRequest_mw cache stub r = Inr (immediate (Response_text ''OK'' 200 []))"
    by (auto simp: onRequest_mw_def immediate_def Let_def)
  from m show "onRequest_v2 cache stub r = immediate (Response_text ''OK'' 200 corsHeaders_v2)"
    by (auto simp: onRequest_v2_def immediate_def)
  from m show "onRequest_co cache stub clk r
        = immediate (Response_text ''x'' 200
                       [(''content-type'', ''text/plain''),
                        (''x-powered-by'', ''Cloudflare-Pages-CDN'')])"
    by (auto simp: onRequest_co_def precheck_co_def immediate_def)
next
  assume "(method' r = ''GET'' \<or> method' r = ''HEAD'') \<and> cache (cacheKey_v4 r) = Inr None"
  then show "fetches (trace (onRequest_v4 cache stub r)) = [origin_call_v4 r]"
    by (simp add: fetches_miss_v4)
qed (auto simp: Response_text_def Response_new_def)

theorem C9_method_dispatch_witness:
  "method' post_req \<noteq> ''GET'' \<and> method' post_req \<noteq> ''HEAD'' \<and> method' post_req \<noteq> ''OPTIONS''
   \<and> onRequest_mw empty_cache ok_stub post_req
       = Inr (immediate (Response_text ''Method Not Allowed'' 405 []))
   \<and> onRequest_v4 empty_cache ok_stub post_req
       = immediate (Response_text ''Method Not Allowed'' 405 corsHeaders_v4)
   \<and> method' options_req = ''OPTIONS''
   \<and> onRequest_v4 empty_cache ok_stub options_req
       = immediate (Response_new None 204 [] corsHeaders_v4)
   \<and> method' health_req = ''GET'' \<and> pathname (url health_req) = ''/health''
   \<and> onRequest_mw empty_cache ok_stub health_req = Inr (immediate (Response_text ''OK'' 200 []))
   \<and> onRequest_v2 empty_cache ok_stub health_req
       = immediate (Response_text ''OK'' 200 corsHeaders_v2)
   \<and> onRequest_co empty_cache ok_stub demo_clock health_req
       = immediate (Response_text ''x'' 200
                      [(''content-type'', ''text/plain''),
                       (''x-powered-by'', ''Cloudflare-Pages-CDN'')])
   \<and> body (resp (onRequest_co empty_cache ok_stub demo_clock health_req)) = Some ''x''
   \<and> onRequest_mw empty_cache ok_stub options_req
       = Inr (immediate (Response_text ''Method Not Allowed'' 405 []))
   \<and> onRequest_co empty_cache ok_stub demo_clock options_req
       = immediate (Response_text ''Method not allowed'' 405 [])
   \<and> empty_cache (cacheKey_v4 health_req) = Inr None
   \<and> fetches (trace (onRequest_v4 empty_cache ok_stub health_req))
       = [origin_call_v4 health_req]"
proof -
  have p: "method' post_req \<noteq> ''GET''" "method' post_req \<noteq> ''HEAD''"
    "method' post_req \<noteq> ''OPTIONS''" by (simp_all add: post_req_def)
  have o: "method' options_req = ''OPTIONS''" by (simp add: options_req_def)
  have h: "method' health_req = ''GET''" "pathname (url health_req) = ''/health''"
    by (simp_all add: health_req_def)
  have e: "empty_cache (cacheKey_v4 health_req) = Inr None" by (simp add: empty_cache_def)
  note a = C9_method_dispatch[where r = post_req and cache = empty_cache and stub = ok_stub]
  note b = C9_method_dispatch[where r = options_req and cache = empty_cache and stub = ok_stub
      and clk = demo_clock]
  note c = C9_method_dispatch[where r = health_req and cache = empty_cache and stub = ok_stub
      and clk = demo_clock and t = "''x''" and s = 200
      and h = "[(''content-type'', ''text/plain''), (''x-powered-by'', ''Cloudflare-Pages-CDN'')]"]
  have a': "onRequest_mw empty_cache ok_stub post_req
       = Inr (immediate (Response_text ''Method Not Allowed'' 405 []))"
    "onRequest_v4 empty_cache ok_stub post_req
       = immediate (Response_text ''Method Not Allowed'' 405 corsHeaders_v4)"
    using a p by simp_all
  have b': "onRequest_v4 empty_cache ok_stub options_req
       = immediate (Response_new None 204 [] corsHeaders_v4)"
    "onRequest_mw empty_cache ok_stub options_req
       = Inr (immediate (Response_text ''Method Not Allowed'' 405 []))"
    "onRequest_co empty_cache ok_stub demo_clock options_req
       = immediate (Response_text ''Method not allowed'' 405 [])"
    using b o by simp_all
  have c': "onRequest_mw empty_cache ok_stub health_req = Inr (immediate (Response_text ''OK'' 200 []))"
    "onRequest_v2 empty_cache ok_stub health_req
       = immediate (Response_text ''OK'' 200 corsHeaders_v2)"
    "onRequest_co empty_cache ok_stub demo_clock health_req
       = immediate (Response_text ''x'' 200
                      [(''content-type'', ''text/plain''),
                       (''x-powered-by'', ''Cloudflare-Pages-CDN'')])"
    using c h by simp_all
  have c'': "body (resp (onRequest_co empty_cache ok_stub demo_clock health_req)) = Some ''x''"
  proof -
    have "body (Response_text ''x'' 200
                  [(''content-type'', ''text/plain''),
                   (''x-powered-by'', ''Cloudflare-Pages-CDN'')]) = Some ''x''"
      using c by blast
    then show ?thesis by (simp add: c'(3) immediate_def)
  qed
  have d: "fetches (trace (onRequest_v4 empty_cache ok_stub health_req))
       = [origin_call_v4 health_req]"
    using c h e by blast
  show ?thesis by (intro conjI p o h a' b'(1) c'(1) c'(2) c'(3) c'' b'(2) b'(3) e d)
qed

section \<open>Request coalescing\<close>

lemma co_inv_init: "co_inv co_init"
  by (simp add: co_inv_def co_init_def)

lemma join_co_known:
  "inflightRequests st (cacheKeyString_co r) = Some p \<Longrightarrow>
   join_co st r = st\<lparr>waiters := waiters st @ [(p, r)]\<rparr>"
  by (simp add: join_co_def)

lemma join_co_new:
  assumes "inflightRequests st (cacheKeyString_co r) = None"
  shows "inflightRequests (join_co st r)
           = (inflightRequests st)(cacheKeyString_co r \<mapsto> next_promise st)"
    and "pending (join_co st r) = (pending st)(next_promise st \<mapsto> cacheKeyString_co r)"
    and "next_promise (join_co st r) = Suc (next_promise st)"
    and "origin_log (join_co st r)
           = origin_log st @ [(cacheKeyString_co r, origin_call_co r)]"
    and "waiters (join_co st r) = waiters st @ [(next_promise st, r)]"
  using assms by (simp_all add: join_co_def Let_def)

lemma co_inv_waiters: "co_inv (st\<lparr>waiters := w\<rparr>) = co_inv st"
  by (simp add: co_inv_def)

lemma co_inv_fresh: "co_inv st \<Longrightarrow> pending st (next_promise st) = None"
proof (cases "pending st (next_promise st)")
  case (Some k)
  assume "co_inv st"
  with Some have "next_promise st < next_promise st" unfolding co_inv_def by blast
  then show ?thesis by simp
qed simp

lemma co_inv_join: "co_inv st \<Longrightarrow> co_inv (join_co st r)"
proof (cases "inflightRequests st (cacheKeyString_co r)")
  case (Some p)
  assume "co_inv st"
  then show ?thesis by (simp only: join_co_known[OF Some] co_inv_waiters)
next
  case None
  assume inv: "co_inv st"
  let ?key = "cacheKeyString_co r" and ?n = "next_promise st"
  note fresh = co_inv_fresh[OF inv]
  have a: "p < Suc ?n \<and> ((inflightRequests st)(?key \<mapsto> ?n)) k = Some p"
    if h: "((pending st)(?n \<mapsto> ?key)) p = Some k" for p k
  proof (cases "p = ?n")
    case True
    with h have "k = ?key" by simp
    with True show ?thesis by simp
  next
    case False
    with h have pk: "pending st p = Some k" by simp
    with inv have lt: "p < ?n" and i: "inflightRequests st k = Some p"
      unfolding co_inv_def by blast+
    from i None have "k \<noteq> ?key" by force
    with lt i show ?thesis by simp
  qed
  have b: "((pending st)(?n \<mapsto> ?key)) p = Some k"
    if h: "((inflightRequests st)(?key \<mapsto> ?n)) k = Some p" for k p
  proof (cases "k = ?key")
    case True
    with h have "p = ?n" by simp
    with True show ?thesis by simp
  next
    case False
    with h have "inflightRequests st k = Some p" by simp
    with inv have pk: "pending st p = Some k" unfolding co_inv_def by blast
    with fresh have "p \<noteq> ?n" by force
    with pk show ?thesis by simp
  qed
  show ?thesis
    unfolding co_inv_def join_co_new[OF None] using a b by blast
qed

lemma settle_co_fields:
  assumes "pending st p = Some k"
  shows "inflightRequests (settle_co clk st p out) = (inflightRequests st)(k := None)"
    and "pending (settle_co clk st p out) = (pending st)(p := None)"
    and "next_promise (settle_co clk st p out) = next_promise st"
    and "origin_log (settle_co clk st p out) = origin_log st"
    and "waiters (settle_co clk st p out) = filter (\<lambda>w. fst w \<noteq> p) (waiters st)"
  using assms by (simp_all add: settle_co_def split: prod.splits)

lemma settle_co_idle: "pending st p = None \<Longrightarrow> settle_co clk st p out = st"
  by (simp add: settle_co_def)

lemma co_inv_settle: "co_inv st \<Longrightarrow> co_inv (settle_co clk st p out)"
proof (cases "pending st p")
  case None
  then show "co_inv st \<Longrightarrow> ?thesis" by (simp only: settle_co_idle)
next
  case (Some k)
  assume inv: "co_inv st"
  have pk: "inflightRequests st k = Some p" using inv Some unfolding co_inv_def by blast
  have a: "q < next_promise st \<and> ((inflightRequests st)(k := None)) k' = Some q"
    if h: "((pending st)(p := None)) q = Some k'" for q k'
  proof -
    from h have qp: "q \<noteq> p" by (cases "q = p") simp_all
    with h have q: "pending st q = Some k'" by simp
    with inv have lt: "q < next_promise st" and i: "inflightRequests st k' = Some q"
      unfolding co_inv_def by blast+
    from i pk qp have "k' \<noteq> k" by force
    with lt i show ?thesis by simp
  qed
  have b: "((pending st)(p := None)) q = Some k'"
    if h: "((inflightRequests st)(k := None)) k' = Some q" for k' q
  proof -
    from h have kk: "k' \<noteq> k" by (cases "k' = k") simp_all
    with h have "inflightRequests st k' = Some q" by simp
    with inv have q: "pending st q = Some k'" unfolding co_inv_def by blast
    with Some kk have "q \<noteq> p" by force
    with q show ?thesis by simp
  qed
  show ?thesis
    unfolding co_inv_def settle_co_fields[OF Some] using a b by blast
qed

lemma co_inv_step: "co_inv st \<Longrightarrow> co_inv (step_co clk st e)"
  by (cases e) (simp_all add: co_inv_join co_inv_settle)

lemma co_inv_run: "co_inv st \<Longrightarrow> co_inv (run_co clk st evs)"
  unfolding run_co_def
  by (induction evs arbitrary: st) (simp_all add: co_inv_step)

lemma run_co_Cons: "run_co clk st (e # evs) = run_co clk (step_co clk st e) evs"
  by (simp add: run_co_def)

lemma misses_for_Cons:
  "misses_for k (e # evs) =
     (case e of Miss r \<Rightarrow> if cacheKeyString_co r = k then [r] else [] | Settle p out \<Rightarrow> [])
     @ misses_for k evs"
  by (simp add: misses_for_def)

lemma join_co_other_key:
  assumes "cacheKeyString_co r \<noteq> k"
  shows "inflightRequests (join_co st r) k = inflightRequests st k"
    and "origin_calls_for k (join_co st r) = origin_calls_for k st"
    and "w \<in> set (waiters st) \<Longrightarrow> w \<in> set (waiters (join_co st r))"
proof -
  show "inflightRequests (join_co st r) k = inflightRequests st k"
    using assms by (cases "inflightRequests st (cacheKeyString_co r)")
      (simp_all add: join_co_known join_co_new)
  show "origin_calls_for k (join_co st r) = origin_calls_for k st"
    using assms by (cases "inflightRequests st (cacheKeyString_co r)")
      (simp_all add: join_co_known join_co_new origin_calls_for_def)
  show "w \<in> set (waiters st) \<Longrightarrow> w \<in> set (waiters (join_co st r))"
    by (cases "inflightRequests st (cacheKeyString_co r)")
      (simp_all add: join_co_known join_co_new)
qed

lemma join_co_attach:
  assumes "inflightRequests st (cacheKeyString_co r) = Some p"
  shows "inflightRequests (join_co st r) = inflightRequests st"
    and "origin_log (join_co st r) = origin_log st"
    and "set (waiters (join_co st r)) = insert (p, r) (set (waiters st))"
  using assms by (simp_all add: join_co_known)

lemma step_keeps_entry:
  assumes inv: "co_inv st"
    and entry: "inflightRequests st k = Some p"
    and quiet: "case e of Miss r \<Rightarrow> True | Settle q out \<Rightarrow> pending st q \<noteq> Some k"
  shows "inflightRequests (step_co clk st e) k = Some p"
    and "origin_calls_for k (step_co clk st e) = origin_calls_for k st"
    and "w \<in> set (waiters st) \<Longrightarrow> fst w = p \<Longrightarrow> w \<in> set (waiters (step_co clk st e))"
    and "e = Miss r \<Longrightarrow> cacheKeyString_co r = k \<Longrightarrow> (p, r) \<in> set (waiters (step_co clk st e))"
proof -
  have pend: "pending st p = Some k" using inv entry unfolding co_inv_def by blast
  have all: "inflightRequests (step_co clk st e) k = Some p
      \<and> origin_calls_for k (step_co clk st e) = origin_calls_for k st
      \<and> (w \<in> set (waiters st) \<longrightarrow> fst w = p \<longrightarrow> w \<in> set (waiters (step_co clk st e)))
      \<and> (e = Miss r \<longrightarrow> cacheKeyString_co r = k \<longrightarrow> (p, r) \<in> set (waiters (step_co clk st e)))"
  proof (cases e)
    case (Miss r')
    show ?thesis
    proof (cases "cacheKeyString_co r' = k")
      case True
      with entry have known: "inflightRequests st (cacheKeyString_co r') = Some p" by simp
      show ?thesis using Miss True entry known
        by (auto simp: join_co_attach origin_calls_for_def)
    next
      case False
      show ?thesis using Miss False entry
        by (auto simp: join_co_other_key[OF False])
    qed
  next
    case (Settle q out)
    with quiet have nk: "pending st q \<noteq> Some k" by simp
    show ?thesis
    proof (cases "pending st q")
      case None
      with Settle entry show ?thesis by (simp add: settle_co_idle)
    next
      case (Some k')
      with nk have kk: "k' \<noteq> k" by simp
      with Some pend have qp: "q \<noteq> p" by force
      show ?thesis using Settle entry kk qp
        by (simp add: settle_co_fields[OF Some] origin_calls_for_def)
    qed
  qed
  from all show "inflightRequests (step_co clk st e) k = Some p" by blast
  from all show "origin_calls_for k (step_co clk st e) = origin_calls_for k st" by blast
  from all show "w \<in> set (waiters st) \<Longrightarrow> fst w = p \<Longrightarrow> w \<in> set (waiters (step_co clk st e))"
    by blast
  from all show "e = Miss r \<Longrightarrow> cacheKeyString_co r = k \<Longrightarrow> (p, r) \<in> set (waiters (step_co clk st e))"
    by blast
qed

lemma entry_stays:
  "co_inv st \<Longrightarrow> inflightRequests st k = Some p \<Longrightarrow> unsettled clk k st evs \<Longrightarrow>
   inflightRequests (run_co clk st evs) k = Some p
   \<and> origin_calls_for k (run_co clk st evs) = origin_calls_for k st
   \<and> (\<forall>w. w \<in> set (waiters st) \<and> fst w = p \<longrightarrow> w \<in> set (waiters (run_co clk st evs)))
   \<and> (\<forall>r. r \<in> set (misses_for k evs) \<longrightarrow> (p, r) \<in> set (waiters (run_co clk st evs)))"
proof (induction evs arbitrary: st)
  case Nil
  then show ?case by (simp add: run_co_def misses_for_def)
next
  case (Cons e evs)
  let ?st1 = "step_co clk st e"
  from Cons.prems(3) have quiet: "case e of Miss r \<Rightarrow> True | Settle q out \<Rightarrow> pending st q \<noteq> Some k"
    and rest: "unsettled clk k ?st1 evs" by simp_all
  note keep = step_keeps_entry[where clk = clk, OF Cons.prems(1) Cons.prems(2) quiet]
  have inv1: "co_inv ?st1" using Cons.prems(1) by (rule co_inv_step)
  note IH = Cons.IH[OF inv1 keep(1) rest]
  have w: "w \<in> set (waiters (run_co clk ?st1 evs))" if "w \<in> set (waiters st)" "fst w = p" for w
    using IH keep(3)[OF that] that(2) by blast
  have m: "(p, r) \<in> set (waiters (run_co clk ?st1 evs))"
    if "r \<in> set (misses_for k (e # evs))" for r
  proof (cases "r \<in> set (misses_for k evs)")
    case True
    with IH show ?thesis by blast
  next
    case False
    with that have "e = Miss r" "cacheKeyString_co r = k"
      by (auto simp: misses_for_Cons split: co_event.splits if_splits)
    from keep(4)[OF this] have "(p, r) \<in> set (waiters ?st1)" .
    with IH show ?thesis by force
  qed
  show ?case unfolding run_co_Cons using IH keep(2) w m by simp
qed

lemma step_stays_absent:
  assumes "inflightRequests st k = None"
    and "case e of Miss r \<Rightarrow> cacheKeyString_co r \<noteq> k | Settle q out \<Rightarrow> True"
  shows "inflightRequests (step_co clk st e) k = None"
    and "origin_calls_for k (step_co clk st e) = origin_calls_for k st"
proof -
  have "inflightRequests (step_co clk st e) k = None
      \<and> origin_calls_for k (step_co clk st e) = origin_calls_for k st"
  proof (cases e)
    case (Miss r)
    with assms(2) have "cacheKeyString_co r \<noteq> k" by simp
    from join_co_other_key[OF this] Miss assms(1) show ?thesis by simp
  next
    case (Settle q out)
    show ?thesis
    proof (cases "pending st q")
      case None
      with Settle assms(1) show ?thesis by (simp add: settle_co_idle)
    next
      case (Some k')
      with Settle assms(1) show ?thesis
        by (simp add: settle_co_fields[OF Some] origin_calls_for_def)
    qed
  qed
  then show "inflightRequests (step_co clk st e) k = None"
    and "origin_calls_for k (step_co clk st e) = origin_calls_for k st" by blast+
qed

lemma first_miss_starts_fetch:
  "co_inv st \<Longrightarrow> inflightRequests st k = None \<Longrightarrow> unsettled clk k st evs \<Longrightarrow>
   misses_for k evs \<noteq> [] \<Longrightarrow>
   \<exists>p. inflightRequests (run_co clk st evs) k = Some p
     \<and> origin_calls_for k (run_co clk st evs) = origin_calls_for k st + 1
     \<and> (\<forall>r. r \<in> set (misses_for k evs) \<longrightarrow> (p, r) \<in> set (waiters (run_co clk st evs)))"
proof (induction evs arbitrary: st)
  case Nil
  then show ?case by (simp add: misses_for_def)
next
  case (Cons e evs)
  let ?st1 = "step_co clk st e"
  have inv1: "co_inv ?st1" using Cons.prems(1) by (rule co_inv_step)
  from Cons.prems(3) have rest: "unsettled clk k ?st1 evs" by simp
  show ?case
  proof (cases "\<exists>r. e = Miss r \<and> cacheKeyString_co r = k")
    case True
    then obtain r where e: "e = Miss r" and key: "cacheKeyString_co r = k" by blast
    let ?p = "next_promise st"
    from Cons.prems(2) key have none: "inflightRequests st (cacheKeyString_co r) = None" by simp
    have entry: "inflightRequests ?st1 k = Some ?p"
      and calls: "origin_calls_for k ?st1 = origin_calls_for k st + 1"
      and wait: "(?p, r) \<in> set (waiters ?st1)"
      using e key by (simp_all add: join_co_new[OF none] origin_calls_for_def)
    note stay = entry_stays[OF inv1 entry rest]
    have m: "(?p, r') \<in> set (waiters (run_co clk ?st1 evs))"
      if "r' \<in> set (misses_for k (e # evs))" for r'
    proof (cases "r' \<in> set (misses_for k evs)")
      case True
      with stay show ?thesis by blast
    next
      case False
      with that e key have "r' = r" by (simp add: misses_for_Cons)
      with wait stay show ?thesis by force
    qed
    show ?thesis unfolding run_co_Cons using stay calls m by auto
  next
    case False
    then have other: "case e of Miss r \<Rightarrow> cacheKeyString_co r \<noteq> k | Settle q out \<Rightarrow> True"
      by (cases e) simp_all
    note absent = step_stays_absent[where clk = clk, OF Cons.prems(2) other]
    from False have same: "misses_for k (e # evs) = misses_for k evs"
      by (cases e) (simp_all add: misses_for_Cons)
    with Cons.prems(4) have some: "misses_for k evs \<noteq> []" by simp
    from Cons.IH[OF inv1 absent(1) rest some]
    show ?thesis unfolding run_co_Cons same absent(2) .
  qed
qed

lemma join_co_log:
  "origin_log (join_co s r)
     = origin_log s @ (if inflightRequests s (cacheKeyString_co r) = None
                       then [(cacheKeyString_co r, origin_call_co r)] else [])"
  by (cases "inflightRequests s (cacheKeyString_co r)") (simp_all add: join_co_known join_co_new)

lemma same_key_same_string:
  assumes "cacheKey_co r1 = cacheKey_co r2"
  shows "cacheKeyString_co r1 = cacheKeyString_co r2"
proof -
  from assms have u: "ck_url (cacheKey_co r1) = ck_url (cacheKey_co r2)"
    and h: "ck_headers (cacheKey_co r1) = ck_headers (cacheKey_co r2)" by simp_all
  from h have "range_of r1 = range_of r2"
    unfolding cacheKey_co_range by (auto split: if_splits)
  with u show ?thesis by (simp add: cacheKeyString_co_def range_of_def)
qed

text \<open>
  Claim C1. Take any state \<open>st\<close> the process can reach in which the in-flight map has
  no entry for key string \<open>k\<close>, and any continuation \<open>evs\<close> of the run in which at least
  one request with that key string misses the cache and no fetch for \<open>k\<close> settles (the
  requests are concurrent with the fetch). Requests and fetches for other keys may be
  interleaved at will. Then the origin is called exactly once for \<open>k\<close> during \<open>evs\<close>;
  the map holds one promise for \<open>k\<close>, an unsettled fetch, and every one of the requests
  awaits that promise; when the fetch settles, with a response or a failure, the entry
  is gone from the map. At every instant two unsettled fetches have different key
  strings, and a handler starts a fetch exactly when the map has no entry for its key.
  Requests with the same cache key have the same key string.
\<close>

theorem C1_one_origin_fetch_per_key:
  assumes reach: "st = run_co clk co_init pre"
    and absent: "inflightRequests st k = None"
    and quiet: "unsettled clk k st evs"
    and some: "misses_for k evs \<noteq> []"
  shows "origin_calls_for k (run_co clk st evs) = origin_calls_for k st + 1
       \<and> (\<exists>p. inflightRequests (run_co clk st evs) k = Some p
              \<and> pending (run_co clk st evs) p = Some k
              \<and> (\<forall>r. r \<in> set (misses_for k evs) \<longrightarrow> (p, r) \<in> set (waiters (run_co clk st evs)))
              \<and> (\<forall>out. inflightRequests (settle_co clk (run_co clk st evs) p out) k = None))
       \<and> (\<forall>p q k'. pending (run_co clk st evs) p = Some k'
                    \<and> pending (run_co clk st evs) q = Some k' \<longrightarrow> p = q)
       \<and> (\<forall>s r. origin_log (join_co s r)
                 = origin_log s @ (if inflightRequests s (cacheKeyString_co r) = None
                                   then [(cacheKeyString_co r, origin_call_co r)] else []))
       \<and> (\<forall>r1 r2. cacheKey_co r1 = cacheKey_co r2
                 \<longrightarrow> cacheKeyString_co r1 = cacheKeyString_co r2)"
proof -
  let ?st' = "run_co clk st evs"
  have inv: "co_inv st" unfolding reach using co_inv_init by (rule co_inv_run)
  then have inv': "co_inv ?st'" by (rule co_inv_run)
  from first_miss_starts_fetch[OF inv absent quiet some]
  obtain p where p: "inflightRequests ?st' k = Some p"
    and calls: "origin_calls_for k ?st' = origin_calls_for k st + 1"
    and wait: "\<forall>r. r \<in> set (misses_for k evs) \<longrightarrow> (p, r) \<in> set (waiters ?st')"
    by blast
  have pend: "pending ?st' p = Some k" using inv' p unfolding co_inv_def by blast
  have gone: "\<forall>out. inflightRequests (settle_co clk ?st' p out) k = None"
    by (simp add: settle_co_fields[OF pend])
  have uniq: "\<forall>p q k'. pending ?st' p = Some k' \<and> pending ?st' q = Some k' \<longrightarrow> p = q"
  proof (intro allI impI)
    fix p q k' assume h: "pending ?st' p = Some k' \<and> pending ?st' q = Some k'"
    with inv' have "inflightRequests ?st' k' = Some p" "inflightRequests ?st' k' = Some q"
      unfolding co_inv_def by blast+
    then show "p = q" by simp
  qed
  have keys: "\<forall>r1 r2. cacheKey_co r1 = cacheKey_co r2
                 \<longrightarrow> cacheKeyString_co r1 = cacheKeyString_co r2"
    using same_key_same_string by blast
  from calls p pend wait gone uniq join_co_log keys show ?thesis by blast
qed

lemma demo_key_strings:
  "cacheKeyString_co demo_req = demo_key_string" "cacheKeyString_co demo_req_b = demo_key_string"
  by (simp_all add: cacheKeyString_co_def cacheKey_co_def demo_req_def demo_req_b_def
      demo_url_def href_def Headers_get_def or_else_def demo_key_string_def)

theorem C1_one_origin_fetch_per_key_witness:
  "co_init = run_co demo_clock co_init []
   \<and> inflightRequests co_init demo_key_string = None
   \<and> unsettled demo_clock demo_key_string co_init [Miss demo_req, Miss demo_req_b]
   \<and> misses_for demo_key_string [Miss demo_req, Miss demo_req_b] = [demo_req, demo_req_b]
   \<and> origin_calls_for demo_key_string
        (run_co demo_clock co_init [Miss demo_req, Miss demo_req_b]) = 1
   \<and> origin_log (run_co demo_clock co_init [Miss demo_req, Miss demo_req_b])
        = [(demo_key_string, origin_call_co demo_req)]"
proof -
  let ?evs = "[Miss demo_req, Miss demo_req_b]"
  have h1: "co_init = run_co demo_clock co_init []" by (simp add: run_co_def)
  have h2: "inflightRequests co_init demo_key_string = None" by (simp add: co_init_def)
  have h3: "unsettled demo_clock demo_key_string co_init ?evs" by simp
  have h4: "misses_for demo_key_string ?evs = [demo_req, demo_req_b]"
    by (simp add: misses_for_def demo_key_strings)
  then have h4': "misses_for demo_key_string ?evs \<noteq> []" by simp
  have z: "origin_calls_for demo_key_string co_init = 0"
    by (simp add: origin_calls_for_def co_init_def)
  have lg: "origin_log (run_co demo_clock co_init ?evs)
        = [(demo_key_string, origin_call_co demo_req)]"
    by (simp add: run_co_def join_co_def demo_key_strings co_init_def)
  from C1_one_origin_fetch_per_key[OF h1 h2 h3 h4']
  have "origin_calls_for demo_key_string (run_co demo_clock co_init ?evs)
          = origin_calls_for demo_key_string co_init + 1" by (rule conjunct1)
  with z have c: "origin_calls_for demo_key_string (run_co demo_clock co_init ?evs) = 1"
    by simp
  show ?thesis by (intro conjI h1 h2 h3 h4 c lg)
qed

text \<open>
  What the waiters of one fetch receive. A failed fetch is delivered to every waiter
  through its \<open>catch\<close>, and an origin error status gives every waiter the same error
  response.
\<close>

lemma resume_co_rejected:
  "resume_co clk (Inl err) stream rs = (stream, map (\<lambda>r. (r, catch_co err)) rs, [])"
  by (induction rs arbitrary: stream) (simp_all add: await_co_def)

lemma resume_co_origin_error:
  "\<not> ok originResponse \<Longrightarrow> status originResponse \<noteq> 206 \<Longrightarrow> status originResponse \<noteq> 304 \<Longrightarrow>
   resume_co clk (Inr originResponse) stream rs =
     (stream,
      map (\<lambda>r. (r, Response_text (''Origin Error: '' @ string_of_nat (status originResponse))
                      (status originResponse) error_headers_co)) rs, [])"
  by (induction rs arbitrary: stream) (simp_all add: await_co_def continue_co_def)

text \<open>
  Once the stream of the shared origin response is locked, every further waiter of a
  response with a body gets the 500 of the \<open>catch\<close>; and the first waiter of a 200 or
  206 locks it.
\<close>

lemma resume_co_locked:
  "ok originResponse \<or> status originResponse = 206 \<or> status originResponse = 304 \<Longrightarrow>
   body originResponse \<noteq> None \<Longrightarrow>
   resume_co clk (Inr originResponse) Locked rs
     = (Locked, map (\<lambda>r. (r, catch_co (locked_stream clk))) rs, [])"
  by (induction rs) (auto simp: await_co_def continue_co_def)

lemma resume_co_first_wins:
  assumes "status originResponse = 200 \<or> status originResponse = 206"
    and "body originResponse \<noteq> None"
  shows "map (\<lambda>d. status (snd d))
           (fst (snd (resume_co clk (Inr originResponse) (Unlocked 0) (r # rs))))
           = status originResponse # map (\<lambda>r. 500) rs"
proof -
  have okay: "ok originResponse \<or> status originResponse = 206 \<or> status originResponse = 304"
    using assms(1) by (auto simp: ok_def)
  have "await_co clk (Inr originResponse) (Unlocked 0) r
          = (Locked, Response_new (body originResponse) (status originResponse)
                     (statusText originResponse) (responseHeaders_co clk originResponse),
             [(cacheKey_co r, Response_new (body originResponse) (status originResponse)
                     (statusText originResponse) (responseHeaders_co clk originResponse))])"
    using assms okay by (auto simp: await_co_def continue_co_def Let_def)
  then show ?thesis
    by (simp add: resume_co_locked[OF okay assms(2)] Response_new_def comp_def catch_co_def
        Response_text_def)
qed

text \<open>
  With a status that passes line 600 but is neither 200 nor 206, and a body, nothing is
  cloned: every waiter's response wraps the origin's stream, which is left wrapped by as
  many responses as there are waiters.
\<close>

lemma resume_co_wrapped:
  "ok originResponse \<or> status originResponse = 304 \<Longrightarrow>
   status originResponse \<noteq> 200 \<Longrightarrow> status originResponse \<noteq> 206 \<Longrightarrow>
   body originResponse \<noteq> None \<Longrightarrow>
   resume_co clk (Inr originResponse) (Unlocked n) rs
     = (Unlocked (n + length rs),
        map (\<lambda>r. (r, Response_new (body originResponse) (status originResponse)
                        (statusText originResponse) (responseHeaders_co clk originResponse)))
          rs,
        [])"
  by (induction rs arbitrary: n) (auto simp: await_co_def continue_co_def Let_def)

text \<open>
  An origin answer of status 203 with a body, awaited by two requests: both handlers
  return a response of status 203 that wraps the origin's one stream, and the run
  records the two as contended, not as delivered.
\<close>

lemma shared_stream_is_contended:
  "delivered (run_co demo_clock co_init
     [Miss demo_req, Miss demo_req_b, Settle 0 (Inr (origin_reply 203))]) = []
   \<and> map fst (contended (run_co demo_clock co_init
        [Miss demo_req, Miss demo_req_b, Settle 0 (Inr (origin_reply 203))]))
     = [demo_req, demo_req_b]
   \<and> map (\<lambda>d. status (snd d)) (contended (run_co demo_clock co_init
        [Miss demo_req, Miss demo_req_b, Settle 0 (Inr (origin_reply 203))]))
     = [203, 203]"
  by (simp add: run_co_def join_co_def settle_co_def demo_key_strings co_init_def
      await_co_def continue_co_def origin_reply_def ok_def Let_def Response_new_def)

text \<open>
  Claim C2 on the coalescing variant. Two requests for the same URL miss the cache, and
  one origin fetch serves both. It settles with status 200 and a body. The first waiter
  builds its response on the origin body and clones it for the cache write, which locks
  the stream; \<open>new Response\<close> of the second waiter on the same stream throws, and its
  \<open>catch\<close> answers 500. The two callers get 200 with the body and 500 with an error
  text (\<open>CDN Error:\<close> and the message of the platform, here that of \<open>demo_clock\<close>), from a
  single origin call.
\<close>

theorem C2_followers_get_500:
  "map (\<lambda>d. status (snd d))
     (delivered (run_co demo_clock co_init
        [Miss demo_req, Miss demo_req_b, Settle 0 (Inr (origin_reply 200))]))
     = [200, 500]
   \<and> map (\<lambda>d. body (snd d))
     (delivered (run_co demo_clock co_init
        [Miss demo_req, Miss demo_req_b, Settle 0 (Inr (origin_reply 200))]))
     = [Some ''data'', Some ''CDN Error: ReadableStream is locked'']
   \<and> map fst
     (delivered (run_co demo_clock co_init
        [Miss demo_req, Miss demo_req_b, Settle 0 (Inr (origin_reply 200))]))
     = [demo_req, demo_req_b]
   \<and> length (origin_log (run_co demo_clock co_init
        [Miss demo_req, Miss demo_req_b, Settle 0 (Inr (origin_reply 200))])) = 1"
  by (simp add: run_co_def join_co_def settle_co_def demo_key_strings co_init_def
      await_co_def continue_co_def origin_reply_def ok_def Let_def Response_new_def
      catch_co_def locked_stream_def demo_clock_def Response_text_def)

end
